theory Spec2Isabelle
  imports Main
begin

section \<open>Values, type descriptors and exceptions\<close>

text \<open>
  The source is one Python module, \<^verbatim>\<open>base.py\<close>. Python values are modelled by one
  datatype. A dictionary is an association list (Python dictionaries keep their
  insertion order, and the order of a query string is visible to the transport); the
  keys that occur here are strings (parameter names, JSON object keys). \<open>VRef\<close> is a
  reference to an object that compares by identity: the client itself is such an
  object, since \<^verbatim>\<open>BaseClient\<close> defines no \<^verbatim>\<open>__eq__\<close>. Floating point values are not
  modelled.
\<close>

datatype tydesc =
    TClass string
  | TAny
  | TTypedDict string "(string \<times> tydesc) list"

datatype pyval =
    VNone
  | VBool bool
  | VInt int
  | VStr string
  | VList "pyval list"
  | VDict "(string \<times> pyval) list"
  | VType tydesc
  | VObj string "(string \<times> pyval) list"
  | VRef nat

text \<open>
  Exceptions are values. \<^verbatim>\<open>ApiError\<close> carries its message and its \<^verbatim>\<open>__cause__\<close>
  (set by \<^verbatim>\<open>raise ... from error\<close>). \<^verbatim>\<open>NotFoundError\<close> is the subclass of \<^verbatim>\<open>ApiError\<close>
  of lines 17-18, raised without arguments. \<^verbatim>\<open>RequestException\<close> is the transport's
  exception class and \<^verbatim>\<open>JSONDecodeError\<close> the one of the \<^verbatim>\<open>json\<close> module, as the source
  imports them (lines 5 and 9); each carries its text. \<open>RequestsJSONDecodeError\<close> is
  \<^verbatim>\<open>requests.exceptions.JSONDecodeError\<close>, the exception that \<^verbatim>\<open>Response.json()\<close> of the
  imported transport raises on a body that is no JSON: a subclass of
  \<^verbatim>\<open>InvalidJSONError\<close>, hence of \<^verbatim>\<open>RequestException\<close>, and of \<^verbatim>\<open>json.JSONDecodeError\<close>.
  \<^verbatim>\<open>SerializationError\<close> stands for whatever the serializer raises. \<open>Unmodelled\<close> is not
  a Python exception: it marks an input outside the fragment of the standard library
  that is modelled here.
\<close>

datatype error =
    ApiError string "error option"
  | NotFoundError
  | RequestException string
  | JSONDecodeError string
  | RequestsJSONDecodeError string
  | SerializationError string
  | KeyError string
  | ValueError
  | TypeError
  | AttributeError
  | Unmodelled

text \<open>A computation that may raise: \<open>map_result f\<close> applies \<open>f\<close> to a value and passes an exception on.\<close>

fun map_result :: "('a \<Rightarrow> 'b) \<Rightarrow> error + 'a \<Rightarrow> error + 'b" where
  "map_result f (Inl e) = Inl e"
| "map_result f (Inr v) = Inr (f v)"

text \<open>
  The classes that the \<^verbatim>\<open>except\<close> clauses test: \<open>is_RequestException e\<close> is
  \<^verbatim>\<open>isinstance(e, RequestException)\<close> and \<open>is_JSONDecodeError e\<close> is
  \<^verbatim>\<open>isinstance(e, JSONDecodeError)\<close>. The transport's decode error is an instance of both.
\<close>

fun is_RequestException :: "error \<Rightarrow> bool" where
  "is_RequestException (RequestException m) = True"
| "is_RequestException (RequestsJSONDecodeError m) = True"
| "is_RequestException e = False"

fun is_JSONDecodeError :: "error \<Rightarrow> bool" where
  "is_JSONDecodeError (JSONDecodeError m) = True"
| "is_JSONDecodeError (RequestsJSONDecodeError m) = True"
| "is_JSONDecodeError e = False"

text \<open>Truth value of a Python value, as \<^verbatim>\<open>if x:\<close> and \<^verbatim>\<open>not x\<close> read it.\<close>

fun truthy :: "pyval \<Rightarrow> bool" where
  "truthy VNone = False"
| "truthy (VBool b) = b"
| "truthy (VInt i) = (i \<noteq> 0)"
| "truthy (VStr s) = (s \<noteq> [])"
| "truthy (VList xs) = (xs \<noteq> [])"
| "truthy (VDict kvs) = (kvs \<noteq> [])"
| "truthy (VType t) = True"
| "truthy (VObj c fs) = True"
| "truthy (VRef r) = True"

section \<open>The collaborators: serializer and transport\<close>

text \<open>
  The serializer (\<^verbatim>\<open>dataclass_factory.Factory\<close>) and the transport (\<^verbatim>\<open>requests.Session\<close>)
  are not part of the repository. They are parameters of the model: a serializer is a
  pair of functions that return a value or raise, a session is a function from the
  keyword arguments of \<^verbatim>\<open>session.request\<close> to a response or an exception. Of a
  response the source reads \<^verbatim>\<open>ok\<close>, \<^verbatim>\<open>status_code\<close>, \<^verbatim>\<open>json()\<close> and \<^verbatim>\<open>str(response)\<close>.
\<close>

record factory =
  dump :: "pyval \<Rightarrow> tydesc \<Rightarrow> error + pyval"
  load :: "pyval \<Rightarrow> tydesc \<Rightarrow> error + pyval"

record response =
  ok :: bool
  status_code :: int
  json :: "error + pyval"
  repr :: string

record http_request =
  req_method :: string
  req_url :: string
  req_params :: pyval
  req_json :: pyval

type_synonym handler = "response \<Rightarrow> error + pyval"

section \<open>The client\<close>

text \<open>
  The fields of a \<^verbatim>\<open>BaseClient\<close> (lines 86-92), and \<open>ident\<close>, the identity of the
  object, which \<^verbatim>\<open>_filter_params\<close> compares values with. The handler table is the
  dictionary \<^verbatim>\<open>error_handlers\<close>, keyed by (verb, status code). A handler is a function
  or a bound method, so its truth value is \<^verbatim>\<open>True\<close>: \<^verbatim>\<open>not handler\<close> holds exactly when
  \<^verbatim>\<open>dict.get\<close> found no entry.
\<close>

record client =
  ident :: nat
  base_url :: string
  session :: "http_request \<Rightarrow> error + response"
  error_handlers :: "(string \<times> int) \<Rightarrow> handler option"
  factory :: factory

text \<open>
  \<^verbatim>\<open>__init__\<close> (lines 86-92): the base URL loses its trailing slashes, the handler table
  starts with the wildcard entry for 404, and \<open>fac\<close> is the serializer that
  \<^verbatim>\<open>_init_factory\<close> returns. \<^verbatim>\<open>_handle_404\<close> (lines 97-98) raises \<^verbatim>\<open>NotFoundError\<close> whatever
  the response.
\<close>

definition rstrip :: "char \<Rightarrow> string \<Rightarrow> string" where
  "rstrip c s = rev (dropWhile (\<lambda>x. x = c) (rev s))"

definition handle_404 :: handler where
  "handle_404 repsonse = Inl NotFoundError"

definition BaseClient_init :: "nat \<Rightarrow> factory \<Rightarrow> string \<Rightarrow> (http_request \<Rightarrow> error + response) \<Rightarrow> client" where
  "BaseClient_init i fac url sess =
     \<lparr>ident = i,
      base_url = rstrip CHR ''/'' url,
      session = sess,
      error_handlers = [('''', 404) \<mapsto> handle_404],
      factory = fac\<rparr>"

section \<open>Error routing\<close>

text \<open>
  \<^verbatim>\<open>handle_error\<close> (lines 100-105). \<open>select_handler\<close> is the value of the local
  variable \<^verbatim>\<open>handler\<close> after lines 101-103: the entry of the exact key, and the entry
  of the wildcard key \<^verbatim>\<open>("", status_code)\<close> when the first lookup found nothing.
  Line 104 raises \<^verbatim>\<open>ApiError(str(response))\<close> when there is still no handler. The
  function ends there: when a handler was found it is not called, and the function
  returns \<^verbatim>\<open>None\<close>. Every operation of the client returns its result together with
  the client as the operation leaves it.
\<close>

definition select_handler :: "client \<Rightarrow> string \<Rightarrow> response \<Rightarrow> handler option" where
  "select_handler self method response =
     (case error_handlers self (method, status_code response) of
        Some handler \<Rightarrow> Some handler
      | None \<Rightarrow> error_handlers self ('''', status_code response))"

definition handle_error :: "client \<Rightarrow> string \<Rightarrow> response \<Rightarrow> (error + pyval) \<times> client" where
  "handle_error self method response =
     (case select_handler self method response of
        None \<Rightarrow> (Inl (ApiError (repr response) None), self)
      | Some handler \<Rightarrow> (Inr VNone, self))"

section \<open>Query parameter filtering\<close>

text \<open>
  \<^verbatim>\<open>_filter_params\<close> (lines 107-114). \<open>skip\<close> is \<^verbatim>\<open>None\<close> or a sequence; the one caller
  passes the pair \<^verbatim>\<open>(result_class, body_class)\<close>, each a type descriptor or \<^verbatim>\<open>None\<close>, so
  the elements of \<open>skip\<close> have that type and \<open>sentinel\<close> is the Python value of one.
  An entry is kept when \<^verbatim>\<open>v != self or (skip and v in skip)\<close>. The comparison
  \<^verbatim>\<open>v != self\<close> is by identity, and \<^verbatim>\<open>v in skip\<close> compares with type descriptors and
  \<^verbatim>\<open>None\<close>, which equal only themselves. A value that is true and has no \<^verbatim>\<open>items\<close>
  raises \<^verbatim>\<open>AttributeError\<close>.
\<close>

fun sentinel :: "tydesc option \<Rightarrow> pyval" where
  "sentinel None = VNone"
| "sentinel (Some t) = VType t"

definition keeps :: "client \<Rightarrow> tydesc option list option \<Rightarrow> pyval \<Rightarrow> bool" where
  "keeps self skip v =
     (v \<noteq> VRef (ident self) \<or>
      (case skip of None \<Rightarrow> False | Some s \<Rightarrow> s \<noteq> [] \<and> v \<in> set (map sentinel s)))"

definition filter_params :: "client \<Rightarrow> pyval \<Rightarrow> tydesc option list option \<Rightarrow> (error + pyval) \<times> client" where
  "filter_params self params skip =
     (if \<not> truthy params then (Inr params, self)
      else (case params of
              VDict items \<Rightarrow> (Inr (VDict (filter (\<lambda>(k, v). keeps self skip v) items)), self)
            | _ \<Rightarrow> (Inl AttributeError, self)))"

section \<open>The request dispatcher\<close>

text \<open>
  \<^verbatim>\<open>request\<close> (lines 116-148). \<open>except_clauses\<close> is the pair of \<^verbatim>\<open>except\<close> clauses of
  lines 137-148, tried in their order: an exception raised anywhere in the \<^verbatim>\<open>try\<close>
  block that is a \<^verbatim>\<open>RequestException\<close> is replaced by \<^verbatim>\<open>ApiError("RequestException")\<close>;
  otherwise one that is a \<^verbatim>\<open>JSONDecodeError\<close> is replaced by
  \<^verbatim>\<open>ApiError("Cannot decode response")\<close>; the cause is the exception caught; any other
  exception passes. \<open>request_try\<close> is the body of the \<^verbatim>\<open>try\<close> block (lines 125-136).
  The serialization of the body (line 123) stands before the \<^verbatim>\<open>try\<close>. The calls of the
  logger write to the module's logger and touch neither the result nor the client;
  they are left out.
\<close>

fun except_clauses :: "error \<Rightarrow> error" where
  "except_clauses error =
     (if is_RequestException error then ApiError ''RequestException'' (Some error)
      else if is_JSONDecodeError error then ApiError ''Cannot decode response'' (Some error)
      else error)"

definition request_try ::
  "client \<Rightarrow> string \<Rightarrow> string \<Rightarrow> pyval \<Rightarrow> pyval \<Rightarrow> tydesc option \<Rightarrow> tydesc option
    \<Rightarrow> (error + pyval) \<times> client" where
  "request_try self url method params body body_class result_class =
     (case filter_params self params (Some [result_class, body_class]) of
        (Inl e, self1) \<Rightarrow> (Inl e, self1)
      | (Inr q, self1) \<Rightarrow>
          (case session self1 \<lparr>req_method = method, req_url = url, req_params = q, req_json = body\<rparr> of
             Inl e \<Rightarrow> (Inl e, self1)
           | Inr response \<Rightarrow>
               if \<not> ok response then handle_error self1 method response
               else (case json response of
                       Inl e \<Rightarrow> (Inl e, self1)
                     | Inr result \<Rightarrow>
                         (case result_class of
                            Some rc \<Rightarrow> (load (factory self1) result rc, self1)
                          | None \<Rightarrow> (Inr result, self1)))))"

definition serialize_body :: "client \<Rightarrow> pyval \<Rightarrow> tydesc option \<Rightarrow> error + pyval" where
  "serialize_body self body body_class =
     (case body_class of
        None \<Rightarrow> Inr body
      | Some bc \<Rightarrow> dump (factory self) body bc)"

definition request ::
  "client \<Rightarrow> string \<Rightarrow> string \<Rightarrow> pyval \<Rightarrow> pyval \<Rightarrow> tydesc option \<Rightarrow> tydesc option
    \<Rightarrow> (error + pyval) \<times> client" where
  "request self url method params body body_class result_class =
     (let url1 = base_url self @ ''/'' @ url in
      case serialize_body self body body_class of
        Inl e \<Rightarrow> (Inl e, self)
      | Inr body1 \<Rightarrow>
          (case request_try self url1 method params body1 body_class result_class of
             (Inl e, self1) \<Rightarrow> (Inl (except_clauses e), self1)
           | (Inr v, self1) \<Rightarrow> (Inr v, self1)))"

section \<open>Declared methods: signature, argument binding, URL template\<close>

text \<open>
  What the decorator reads of the decorated function: its name, the names of its
  positional parameters with the receiver first (\<^verbatim>\<open>getfullargspec(func).args\<close>), the
  defaults of its parameters, each under the name of its parameter, and its
  annotations, the return annotation under \<^verbatim>\<open>"return"\<close> (\<^verbatim>\<open>get_type_hints(func)\<close> and
  \<^verbatim>\<open>getfullargspec(func).annotations\<close> read the same annotations). Functions with
  \<^verbatim>\<open>*args\<close>, \<^verbatim>\<open>**kwargs\<close> or keyword-only parameters are not modelled.
\<close>

record func =
  fname :: string
  fargs :: "string list"
  fdefaults :: "(string \<times> pyval) list"
  annotations :: "(string \<times> tydesc) list"

text \<open>
  \<^verbatim>\<open>inspect.getcallargs(func, *positional, **named)\<close> for such a function. The first
  positional arguments bind the first parameters; a named argument that is no
  parameter, or that names a parameter already bound, is a \<^verbatim>\<open>TypeError\<close>, and so are
  too many positional arguments and a parameter left without value and default. The
  dictionary holds the positional bindings, then the named ones, then the defaults.
\<close>

definition getcallargs :: "func \<Rightarrow> pyval list \<Rightarrow> (string \<times> pyval) list \<Rightarrow> error + (string \<times> pyval) list" where
  "getcallargs f positional named =
     (let args = fargs f;
          bound = zip args positional
      in if list_ex (\<lambda>(kw, value). kw \<notin> set args \<or> kw \<in> set (map fst bound)) named
         then Inl TypeError
         else if length args < length positional then Inl TypeError
         else (let arg2value = bound @ named;
                   unbound = filter (\<lambda>arg. arg \<notin> set (map fst arg2value)) args
               in if list_ex (\<lambda>arg. arg \<notin> set (map fst (fdefaults f))) unbound
                  then Inl TypeError
                  else Inr (arg2value @
                            List.map_filter (\<lambda>arg. map_option (Pair arg) (map_of (fdefaults f) arg)) unbound)))"

text \<open>
  \<^verbatim>\<open>str(v)\<close> for the primitive values, which is also what \<^verbatim>\<open>format(v, "")\<close> gives for
  them. The text of other values (containers, objects, classes) is not modelled.
\<close>

definition digit_char :: "nat \<Rightarrow> char" where
  "digit_char d = ''0123456789'' ! d"

function str_nat :: "nat \<Rightarrow> string" where
  "str_nat n = (if n < 10 then [digit_char n] else str_nat (n div 10) @ [digit_char (n mod 10)])"
  by pat_completeness auto
termination
  by (relation "measure id") auto

definition str_int :: "int \<Rightarrow> string" where
  "str_int i = (if i < 0 then CHR ''-'' # str_nat (nat (- i)) else str_nat (nat i))"

fun str :: "pyval \<Rightarrow> error + string" where
  "str VNone = Inr ''None''"
| "str (VBool b) = Inr (if b then ''True'' else ''False'')"
| "str (VInt i) = Inr (str_int i)"
| "str (VStr s) = Inr s"
| "str v = Inl Unmodelled"

text \<open>
  Format strings. The fragment modelled: literal text, the escapes \<^verbatim>\<open>{{\<close> and \<^verbatim>\<open>}}\<close>, and
  replacement fields \<^verbatim>\<open>{name}\<close> whose name is looked up among the keyword arguments.
  A field with a conversion (\<^verbatim>\<open>!\<close>), a format specification (\<^verbatim>\<open>:\<close>), an attribute or an
  index (\<^verbatim>\<open>.\<close>, \<^verbatim>\<open>[\<close>) or a nested brace is outside the fragment, and so is, for
  \<^verbatim>\<open>str.format\<close>, a field that selects a positional argument (an empty name or a
  number).

  \<open>parse\<close> is \<^verbatim>\<open>string.Formatter().parse(url_format)\<close> read to its end, as the list
  comprehension of line 32 does: one pair (literal text, field name) for each literal
  run that ends in a field, in an escaped brace or at the end of the string, the
  field name being \<^verbatim>\<open>None\<close> where no field follows. A single brace is a \<^verbatim>\<open>ValueError\<close>.
\<close>

definition outside_fragment :: "char \<Rightarrow> bool" where
  "outside_fragment c = (c \<in> set ''{!:.['')"

fun parse_lit :: "string \<Rightarrow> string \<Rightarrow> error + (string \<times> string option) list"
  and parse_field :: "string \<Rightarrow> string \<Rightarrow> string \<Rightarrow> error + (string \<times> string option) list" where
  "parse_lit lit [] = Inr (if lit = [] then [] else [(lit, None)])"
| "parse_lit lit (c # cs) =
     (if c = CHR ''{'' then
        (case cs of
           [] \<Rightarrow> Inl ValueError
         | d # ds \<Rightarrow>
             if d = CHR ''{'' then map_result (Cons (lit @ ''{'', None)) (parse_lit [] ds)
             else parse_field lit [] cs)
      else if c = CHR ''}'' then
        (case cs of
           [] \<Rightarrow> Inl ValueError
         | d # ds \<Rightarrow>
             if d = CHR ''}'' then map_result (Cons (lit @ ''}'', None)) (parse_lit [] ds)
             else Inl ValueError)
      else parse_lit (lit @ [c]) cs)"
| "parse_field lit name [] = Inl ValueError"
| "parse_field lit name (c # cs) =
     (if c = CHR ''}'' then map_result (Cons (lit, Some name)) (parse_lit [] cs)
      else if outside_fragment c then Inl Unmodelled
      else parse_field lit (name @ [c]) cs)"

definition parse :: "string \<Rightarrow> error + (string \<times> string option) list" where
  "parse url_format = parse_lit [] url_format"

text \<open>
  \<open>format\<close> is \<^verbatim>\<open>url_format.format(**params)\<close> (line 39). The string is read from the
  left, and each field is looked up and rendered when its closing brace is reached,
  so the first failure from the left is the one raised: \<^verbatim>\<open>KeyError(name)\<close> for a name
  that is no keyword argument, \<^verbatim>\<open>ValueError\<close> for a single brace.
\<close>

definition is_digit :: "char \<Rightarrow> bool" where
  "is_digit c = (c \<in> set ''0123456789'')"

definition get_value :: "(string \<times> pyval) list \<Rightarrow> string \<Rightarrow> error + pyval" where
  "get_value kwargs name =
     (if name = [] \<or> list_all is_digit name then Inl Unmodelled
      else (case map_of kwargs name of
              None \<Rightarrow> Inl (KeyError name)
            | Some v \<Rightarrow> Inr v))"

fun format_lit :: "(string \<times> pyval) list \<Rightarrow> string \<Rightarrow> error + string"
  and format_field :: "(string \<times> pyval) list \<Rightarrow> string \<Rightarrow> string \<Rightarrow> error + string" where
  "format_lit kwargs [] = Inr []"
| "format_lit kwargs (c # cs) =
     (if c = CHR ''{'' then
        (case cs of
           [] \<Rightarrow> Inl ValueError
         | d # ds \<Rightarrow>
             if d = CHR ''{'' then map_result (Cons CHR ''{'') (format_lit kwargs ds)
             else format_field kwargs [] cs)
      else if c = CHR ''}'' then
        (case cs of
           [] \<Rightarrow> Inl ValueError
         | d # ds \<Rightarrow>
             if d = CHR ''}'' then map_result (Cons CHR ''}'') (format_lit kwargs ds)
             else Inl ValueError)
      else map_result (Cons c) (format_lit kwargs cs))"
| "format_field kwargs name [] = Inl ValueError"
| "format_field kwargs name (c # cs) =
     (if c = CHR ''}'' then
        (case get_value kwargs name of
           Inl e \<Rightarrow> Inl e
         | Inr v \<Rightarrow>
             (case str v of
                Inl e \<Rightarrow> Inl e
              | Inr s \<Rightarrow> map_result (append s) (format_lit kwargs cs)))
      else if outside_fragment c then Inl Unmodelled
      else format_field kwargs (name @ [c]) cs)"

definition format :: "string \<Rightarrow> (string \<times> pyval) list \<Rightarrow> error + string" where
  "format url_format kwargs = format_lit kwargs url_format"

section \<open>The decorator\<close>

text \<open>
  \<^verbatim>\<open>create_args_class\<close> (lines 69-80). The loop over \<^verbatim>\<open>s.args\<close> skips the first name
  (the receiver) and every name in \<open>skipped\<close>, and stores the annotation of each
  other name, \<^verbatim>\<open>Any\<close> where there is none. \<open>dict_set\<close> is the assignment \<^verbatim>\<open>fields[x] = ...\<close>, \<open>flds\<close> the dictionary \<^verbatim>\<open>fields\<close>.
  The elements of \<open>skipped\<close> are field names or \<^verbatim>\<open>None\<close>.
\<close>

fun dict_set :: "(string \<times> 'a) list \<Rightarrow> string \<Rightarrow> 'a \<Rightarrow> (string \<times> 'a) list" where
  "dict_set [] k v = [(k, v)]"
| "dict_set ((k', v') # kvs) k v = (if k' = k then (k, v) # kvs else (k', v') # dict_set kvs k v)"

fun args_loop ::
  "func \<Rightarrow> string option list \<Rightarrow> bool \<Rightarrow> (string \<times> tydesc) list \<Rightarrow> string list \<Rightarrow> (string \<times> tydesc) list" where
  "args_loop s skipped self_processed flds [] = flds"
| "args_loop s skipped self_processed flds (x # xs) =
     (if \<not> self_processed then args_loop s skipped True flds xs
      else if Some x \<in> set skipped then args_loop s skipped self_processed flds xs
      else args_loop s skipped self_processed
             (dict_set flds x (case map_of (annotations s) x of None \<Rightarrow> TAny | Some t \<Rightarrow> t)) xs)"

definition create_args_class :: "func \<Rightarrow> string option list \<Rightarrow> tydesc" where
  "create_args_class f skipped =
     TTypedDict (fname f @ ''_Args'') (args_loop f skipped False [] (fargs f))"

text \<open>
  \<^verbatim>\<open>rest(url_format, method=..., body_name=...)(func)\<close> (lines 26-46): the work done once,
  when the method is declared. The result is the wrapper \<^verbatim>\<open>inner\<close>, here the record
  of the variables it closes over. The only step that can raise is the reading of
  the parsed template in line 32.
\<close>

record route =
  r_func :: func
  r_url_format :: string
  r_method :: string
  r_body_name :: string
  r_result_class :: "tydesc option"
  r_body_class :: "tydesc option"
  r_args_class :: tydesc

definition rest :: "string \<Rightarrow> string \<Rightarrow> string \<Rightarrow> func \<Rightarrow> error + route" where
  "rest url_format method body_name f =
     (let hints = annotations f;
          result_class = map_of hints ''return'';
          body_class = map_of hints body_name
      in case parse url_format of
           Inl e \<Rightarrow> Inl e
         | Inr parsed_format \<Rightarrow>
             (let skipped = map snd parsed_format @ [Some body_name];
                  args_class = create_args_class f skipped
              in Inr \<lparr>r_func = f, r_url_format = url_format, r_method = method,
                      r_body_name = body_name, r_result_class = result_class,
                      r_body_class = body_class, r_args_class = args_class\<rparr>))"

text \<open>The convenience decorators (lines 49-66); \<open>body_name\<close> defaults to \<^verbatim>\<open>"body"\<close>.\<close>

definition get :: "string \<Rightarrow> func \<Rightarrow> error + route" where
  "get url_format = rest url_format ''GET'' ''''"

definition delete :: "string \<Rightarrow> func \<Rightarrow> error + route" where
  "delete url_format = rest url_format ''DELETE'' ''''"

definition patch :: "string \<Rightarrow> string \<Rightarrow> func \<Rightarrow> error + route" where
  "patch url_format body_name = rest url_format ''PATCH'' body_name"

definition put :: "string \<Rightarrow> string \<Rightarrow> func \<Rightarrow> error + route" where
  "put url_format body_name = rest url_format ''PUT'' body_name"

definition post :: "string \<Rightarrow> string \<Rightarrow> func \<Rightarrow> error + route" where
  "post url_format body_name = rest url_format ''POST'' body_name"

text \<open>
  The wrapper \<^verbatim>\<open>inner(self, *args, **kwargs)\<close> (lines 37-42), the code run by each call
  of a declared method. \<open>built_url\<close> is the value of its local variable \<^verbatim>\<open>url\<close>
  (lines 38-39). \<open>dict_get\<close> is \<^verbatim>\<open>params.get(body_name)\<close> on what the serializer
  returned: \<^verbatim>\<open>None\<close> where the key is missing, and an \<^verbatim>\<open>AttributeError\<close> on a value that
  is no dictionary.
\<close>

definition built_url :: "route \<Rightarrow> client \<Rightarrow> pyval list \<Rightarrow> (string \<times> pyval) list \<Rightarrow> error + string" where
  "built_url r self args kwargs =
     (case getcallargs (r_func r) (VRef (ident self) # args) kwargs of
        Inl e \<Rightarrow> Inl e
      | Inr params \<Rightarrow> format (r_url_format r) params)"

fun dict_get :: "pyval \<Rightarrow> string \<Rightarrow> error + pyval" where
  "dict_get (VDict kvs) k = Inr (case map_of kvs k of None \<Rightarrow> VNone | Some v \<Rightarrow> v)"
| "dict_get v k = Inl AttributeError"

definition inner :: "route \<Rightarrow> client \<Rightarrow> pyval list \<Rightarrow> (string \<times> pyval) list \<Rightarrow> (error + pyval) \<times> client" where
  "inner r self args kwargs =
     (case getcallargs (r_func r) (VRef (ident self) # args) kwargs of
        Inl e \<Rightarrow> (Inl e, self)
      | Inr params \<Rightarrow>
          (case format (r_url_format r) params of
             Inl e \<Rightarrow> (Inl e, self)
           | Inr url \<Rightarrow>
               (case dump (factory self) (VDict params) (r_args_class r) of
                  Inl e \<Rightarrow> (Inl e, self)
                | Inr params1 \<Rightarrow>
                    (case dict_get params1 (r_body_name r) of
                       Inl e \<Rightarrow> (Inl e, self)
                     | Inr body \<Rightarrow>
                         request self url (r_method r) params1 body
                           (r_body_class r) (r_result_class r)))))"

section \<open>Templates with plain placeholders\<close>

text \<open>
  The vocabulary of the statements about URL templates. A template is written as a
  list of pieces, literal text and placeholders \<^verbatim>\<open>{p}\<close>; \<open>template\<close> is its text. A
  piece is plain when its text has no brace and its name is a keyword name inside the
  fragment modelled. \<open>primitive\<close> values are \<^verbatim>\<open>None\<close>, Booleans, integers and strings.
  \<open>substituted\<close> follows the words of the specification: the template with each
  placeholder replaced by the string form of the value bound to its name.
\<close>

datatype piece = Text string | Placeholder string

fun render_piece :: "piece \<Rightarrow> string" where
  "render_piece (Text s) = s"
| "render_piece (Placeholder p) = ''{'' @ p @ ''}''"

definition template :: "piece list \<Rightarrow> string" where
  "template pieces = concat (map render_piece pieces)"

definition plain_name :: "string \<Rightarrow> bool" where
  "plain_name p = (p \<noteq> [] \<and> \<not> list_all is_digit p
                   \<and> list_all (\<lambda>c. c \<noteq> CHR ''}'' \<and> \<not> outside_fragment c) p)"

fun plain_piece :: "piece \<Rightarrow> bool" where
  "plain_piece (Text s) = (CHR ''{'' \<notin> set s \<and> CHR ''}'' \<notin> set s)"
| "plain_piece (Placeholder p) = plain_name p"

fun primitive :: "pyval \<Rightarrow> bool" where
  "primitive VNone = True"
| "primitive (VBool b) = True"
| "primitive (VInt i) = True"
| "primitive (VStr s) = True"
| "primitive v = False"

fun substituted_piece :: "(string \<times> pyval) list \<Rightarrow> piece \<Rightarrow> string" where
  "substituted_piece kw (Text s) = s"
| "substituted_piece kw (Placeholder p) =
     (case map_of kw p of
        None \<Rightarrow> []
      | Some v \<Rightarrow> (case str v of Inl e \<Rightarrow> [] | Inr s \<Rightarrow> s))"

definition substituted :: "(string \<times> pyval) list \<Rightarrow> piece list \<Rightarrow> string" where
  "substituted kw pieces = concat (map (substituted_piece kw) pieces)"

text \<open>
  The filter as the specification words it (section 4.3): an entry is dropped when its
  value is identical to one of the skip sentinels, and every other entry is kept.
\<close>

definition spec_filter_params :: "tydesc option list \<Rightarrow> (string \<times> pyval) list \<Rightarrow> (string \<times> pyval) list" where
  "spec_filter_params skip items = filter (\<lambda>(k, v). v \<notin> set (map sentinel skip)) items"

section \<open>Example collaborators and methods\<close>

text \<open>
  Concrete serializers, transports and methods, on which the statements below are
  evaluated. \<open>shape_factory\<close> dumps a dictionary against a \<^verbatim>\<open>TypedDict\<close> by keeping the
  declared keys, and an object against its class by its fields; \<open>plain_factory\<close>
  returns every value as it is. \<open>echo_session\<close> answers every request with status 200
  and a JSON body that repeats what it was handed; \<open>refusing_session\<close> raises a
  connection error; \<open>text_session\<close> answers with a body that is no JSON, so that
  \<^verbatim>\<open>json()\<close> raises the transport's decode error.
\<close>

fun shape_dump :: "pyval \<Rightarrow> tydesc \<Rightarrow> error + pyval" where
  "shape_dump v TAny = Inr v"
| "shape_dump (VObj c fs) (TClass c') = (if c = c' then Inr (VDict fs) else Inl (SerializationError c'))"
| "shape_dump v (TClass c') = Inl (SerializationError c')"
| "shape_dump (VDict kvs) (TTypedDict n flds) = Inr (VDict (filter (\<lambda>(k, v). k \<in> set (map fst flds)) kvs))"
| "shape_dump v (TTypedDict n flds) = Inl (SerializationError n)"

fun shape_load :: "pyval \<Rightarrow> tydesc \<Rightarrow> error + pyval" where
  "shape_load (VDict kvs) (TClass c) = Inr (VObj c kvs)"
| "shape_load v (TClass c) = Inl (SerializationError c)"
| "shape_load v t = Inr v"

definition shape_factory :: factory where
  "shape_factory = \<lparr>dump = shape_dump, load = shape_load\<rparr>"

definition plain_factory :: factory where
  "plain_factory = \<lparr>dump = (\<lambda>v t. Inr v), load = (\<lambda>v t. Inr v)\<rparr>"

definition echo_session :: "http_request \<Rightarrow> error + response" where
  "echo_session q =
     Inr \<lparr>ok = True, status_code = 200,
          json = Inr (VDict [(''method'', VStr (req_method q)), (''url'', VStr (req_url q)),
                             (''params'', req_params q), (''json'', req_json q)]),
          repr = ''<Response [200]>''\<rparr>"

definition refusing_session :: "http_request \<Rightarrow> error + response" where
  "refusing_session q = Inl (RequestException ''connection refused'')"

definition text_session :: "http_request \<Rightarrow> error + response" where
  "text_session q =
     Inr \<lparr>ok = True, status_code = 200, json = Inl (RequestsJSONDecodeError ''Expecting value''),
          repr = ''<Response [200]>''\<rparr>"

definition not_found_response :: response where
  "not_found_response =
     \<lparr>ok = False, status_code = 404, json = Inl (RequestsJSONDecodeError ''Expecting value''),
      repr = ''<Response [404]>''\<rparr>"

definition not_found_session :: "http_request \<Rightarrow> error + response" where
  "not_found_session q = Inr not_found_response"

definition demo_client :: client where
  "demo_client = BaseClient_init 7 shape_factory ''http://api.test/'' echo_session"

text \<open>
  \<^verbatim>\<open>def get_item(self, id: int, verbose: bool = False) -> Item\<close> and
  \<^verbatim>\<open>def add_item(self, body: Item, tag: str)\<close>.
\<close>

definition get_item :: func where
  "get_item =
     \<lparr>fname = ''get_item'', fargs = [''self'', ''id'', ''verbose''],
      fdefaults = [(''verbose'', VBool False)],
      annotations = [(''id'', TClass ''int''), (''verbose'', TClass ''bool''),
                     (''return'', TClass ''Item'')]\<rparr>"

definition add_item :: func where
  "add_item =
     \<lparr>fname = ''add_item'', fargs = [''self'', ''body'', ''tag''],
      fdefaults = [],
      annotations = [(''body'', TClass ''Item''), (''tag'', TClass ''str'')]\<rparr>"

definition server_error_response :: response where
  "server_error_response =
     \<lparr>ok = False, status_code = 500, json = Inl (RequestsJSONDecodeError ''Expecting value''),
      repr = ''<Response [500]>''\<rparr>"

definition gone_handler :: handler where
  "gone_handler response = Inl (ApiError ''gone'' None)"

definition custom_client :: client where
  "custom_client =
     demo_client\<lparr>error_handlers := [('''', 404) \<mapsto> handle_404, (''GET'', 404) \<mapsto> gone_handler]\<rparr>"

text \<open>
  The wrappers that the decorators return for \<^verbatim>\<open>get("items/{id}/{verbose}")\<close> on
  \<open>get_item\<close>, for \<^verbatim>\<open>post("notes")\<close> on
  \<^verbatim>\<open>def add_note(self, body, tag: str)\<close> and for \<^verbatim>\<open>post("items")\<close> on \<open>add_item\<close>.
\<close>

definition get_item_route :: route where
  "get_item_route =
     \<lparr>r_func = get_item, r_url_format = ''items/{id}/{verbose}'', r_method = ''GET'',
      r_body_name = '''', r_result_class = Some (TClass ''Item''), r_body_class = None,
      r_args_class = TTypedDict ''get_item_Args'' []\<rparr>"

definition add_note :: func where
  "add_note =
     \<lparr>fname = ''add_note'', fargs = [''self'', ''body'', ''tag''],
      fdefaults = [],
      annotations = [(''tag'', TClass ''str'')]\<rparr>"

definition add_note_route :: route where
  "add_note_route =
     \<lparr>r_func = add_note, r_url_format = ''notes'', r_method = ''POST'',
      r_body_name = ''body'', r_result_class = None, r_body_class = None,
      r_args_class = TTypedDict ''add_note_Args'' [(''tag'', TClass ''str'')]\<rparr>"

definition add_item_route :: route where
  "add_item_route =
     \<lparr>r_func = add_item, r_url_format = ''items'', r_method = ''POST'',
      r_body_name = ''body'', r_result_class = None, r_body_class = Some (TClass ''Item''),
      r_args_class = TTypedDict ''add_item_Args'' [(''tag'', TClass ''str'')]\<rparr>"

section \<open>Error routing: theorems\<close>

text \<open>
  C1. With the handler table of a new client, \<^verbatim>\<open>handle_error\<close> on a response with
  status 404 does not raise: it finds the wildcard handler, which would raise
  \<^verbatim>\<open>NotFoundError\<close>, does not call it, and returns \<^verbatim>\<open>None\<close>, for every verb.
\<close>

theorem handle_error_default_404:
  assumes "status_code response = 404"
  shows "handle_error (BaseClient_init i fac url sess) method response
           = (Inr VNone, BaseClient_init i fac url sess)
       \<and> map_option (\<lambda>h. h response) (select_handler (BaseClient_init i fac url sess) method response)
           = Some (Inl NotFoundError)"
  using assms by (simp add: handle_error_def select_handler_def BaseClient_init_def handle_404_def)

theorem handle_error_default_404_witness:
  "fst (handle_error demo_client ''GET'' not_found_response) = Inr VNone
   \<and> fst (handle_error demo_client ''DELETE'' not_found_response) = Inr VNone"
proof -
  have s: "status_code not_found_response = 404" by (simp add: not_found_response_def)
  show ?thesis
    using handle_error_default_404 [OF s, of 7 shape_factory "''http://api.test/''" echo_session "''GET''"]
          handle_error_default_404 [OF s, of 7 shape_factory "''http://api.test/''" echo_session "''DELETE''"]
    by (simp add: demo_client_def)
qed

text \<open>
  C5. The handler is selected in this order: the entry of the exact key (verb, status
  code) when there is one; otherwise the entry of the wildcard key ("", status code);
  and \<^verbatim>\<open>ApiError(str(response))\<close> is raised exactly when neither entry exists, which is
  the only case in which \<^verbatim>\<open>handle_error\<close> raises.
\<close>

theorem handler_selection_order:
  "(error_handlers self (method, status_code response) = Some h
      \<longrightarrow> select_handler self method response = Some h)
   \<and> (error_handlers self (method, status_code response) = None
      \<longrightarrow> select_handler self method response = error_handlers self ('''', status_code response))
   \<and> ((error_handlers self (method, status_code response) = None
        \<and> error_handlers self ('''', status_code response) = None)
       = (fst (handle_error self method response) = Inl (ApiError (repr response) None)))
   \<and> (isl (fst (handle_error self method response))
       = (select_handler self method response = None))"
  by (auto simp: handle_error_def select_handler_def split: option.splits)

theorem handler_selection_order_witness:
  "map_option (\<lambda>h. h not_found_response) (select_handler custom_client ''GET'' not_found_response)
     = Some (Inl (ApiError ''gone'' None))
   \<and> map_option (\<lambda>h. h not_found_response) (select_handler custom_client ''DELETE'' not_found_response)
     = Some (Inl NotFoundError)
   \<and> fst (handle_error custom_client ''GET'' server_error_response)
     = Inl (ApiError ''<Response [500]>'' None)"
proof -
  have 1: "error_handlers custom_client (''GET'', status_code not_found_response) = Some gone_handler"
    by (simp add: custom_client_def not_found_response_def)
  have 2: "error_handlers custom_client (''DELETE'', status_code not_found_response) = None"
    by (simp add: custom_client_def not_found_response_def)
  have 3: "error_handlers custom_client ('''', status_code not_found_response) = Some handle_404"
    by (simp add: custom_client_def not_found_response_def)
  have 4: "error_handlers custom_client (''GET'', status_code server_error_response) = None"
    by (simp add: custom_client_def server_error_response_def)
  have 5: "error_handlers custom_client ('''', status_code server_error_response) = None"
    by (simp add: custom_client_def server_error_response_def)
  have a: "select_handler custom_client ''GET'' not_found_response = Some gone_handler"
    using handler_selection_order [of custom_client "''GET''" not_found_response gone_handler] 1 by simp
  have b: "select_handler custom_client ''DELETE'' not_found_response = Some handle_404"
    using handler_selection_order [of custom_client "''DELETE''" not_found_response gone_handler] 2 3 by simp
  have c: "fst (handle_error custom_client ''GET'' server_error_response)
             = Inl (ApiError (repr server_error_response) None)"
    using handler_selection_order [of custom_client "''GET''" server_error_response gone_handler] 4 5 by simp
  show ?thesis
    using a b c by (simp add: gone_handler_def handle_404_def server_error_response_def)
qed

section \<open>Query parameter filtering: theorems\<close>

text \<open>
  C2, as stated, fails. With the sentinels \<^verbatim>\<open>(Item, None)\<close>, the entry whose value is
  the sentinel \<^verbatim>\<open>Item\<close> is kept and the entry whose value is the client itself, which is
  no sentinel, is dropped: the opposite of what the specification's filter does.
\<close>

theorem filter_params_counterexample:
  "fst (filter_params demo_client
          (VDict [(''me'', VRef 7), (''t'', VType (TClass ''Item''))])
          (Some [Some (TClass ''Item''), None]))
     = Inr (VDict [(''t'', VType (TClass ''Item''))])
   \<and> spec_filter_params [Some (TClass ''Item''), None]
          [(''me'', VRef 7), (''t'', VType (TClass ''Item''))]
     = [(''me'', VRef 7)]
   \<and> fst (filter_params demo_client
          (VDict [(''me'', VRef 7), (''t'', VType (TClass ''Item''))])
          (Some [Some (TClass ''Item''), None]))
     \<noteq> Inr (VDict (spec_filter_params [Some (TClass ''Item''), None]
          [(''me'', VRef 7), (''t'', VType (TClass ''Item''))]))"
  by (simp add: filter_params_def keeps_def spec_filter_params_def demo_client_def BaseClient_init_def)

text \<open>
  C2, amended. For every dictionary of query parameters, filtered with the two
  sentinels of a call, the result is a dictionary of entries of the given one; every
  entry whose value is the client itself is dropped; and every entry whose value is
  neither the client nor one of the two sentinels is kept unchanged. (Nothing is said
  of an entry whose value is a sentinel.)
\<close>

theorem filter_params_drops_self:
  "\<exists>kept. filter_params self (VDict items) (Some [result_class, body_class]) = (Inr (VDict kept), self)
     \<and> set kept \<subseteq> set items
     \<and> (\<forall>(k, v) \<in> set items.
           (v = VRef (ident self) \<longrightarrow> (k, v) \<notin> set kept)
         \<and> (v \<noteq> VRef (ident self) \<and> v \<noteq> sentinel result_class \<and> v \<noteq> sentinel body_class
              \<longrightarrow> (k, v) \<in> set kept))"
proof (cases "items = []")
  case True
  then show ?thesis by (simp add: filter_params_def)
next
  case False
  have s: "VRef (ident self) \<noteq> sentinel result_class" "VRef (ident self) \<noteq> sentinel body_class"
    by (cases result_class; simp)  (cases body_class; simp)
  let ?kept = "filter (\<lambda>(k, v). keeps self (Some [result_class, body_class]) v) items"
  have "filter_params self (VDict items) (Some [result_class, body_class]) = (Inr (VDict ?kept), self)"
    using False by (simp add: filter_params_def)
  moreover have "set ?kept \<subseteq> set items" by auto
  moreover have "\<forall>(k, v) \<in> set items.
           (v = VRef (ident self) \<longrightarrow> (k, v) \<notin> set ?kept)
         \<and> (v \<noteq> VRef (ident self) \<and> v \<noteq> sentinel result_class \<and> v \<noteq> sentinel body_class
              \<longrightarrow> (k, v) \<in> set ?kept)"
    using s by (auto simp: keeps_def)
  ultimately show ?thesis by blast
qed

theorem filter_params_drops_self_witness:
  "\<exists>kept. fst (filter_params demo_client (VDict [(''me'', VRef 7), (''page'', VInt 2)])
                 (Some [Some (TClass ''Item''), None])) = Inr (VDict kept)
     \<and> (''me'', VRef 7) \<notin> set kept \<and> (''page'', VInt 2) \<in> set kept"
proof -
  have i: "ident demo_client = 7" by (simp add: demo_client_def BaseClient_init_def)
  obtain kept where k: "filter_params demo_client (VDict [(''me'', VRef 7), (''page'', VInt 2)])
        (Some [Some (TClass ''Item''), None]) = (Inr (VDict kept), demo_client)"
    and a: "\<forall>(k, v) \<in> set [(''me'', VRef 7), (''page'', VInt 2)].
           (v = VRef (ident demo_client) \<longrightarrow> (k, v) \<notin> set kept)
         \<and> (v \<noteq> VRef (ident demo_client) \<and> v \<noteq> sentinel (Some (TClass ''Item'')) \<and> v \<noteq> sentinel None
              \<longrightarrow> (k, v) \<in> set kept)"
    using filter_params_drops_self [of demo_client "[(''me'', VRef 7), (''page'', VInt 2)]"
        "Some (TClass ''Item'')" None] by blast
  from a i have "(''me'', VRef 7) \<notin> set kept" "(''page'', VInt 2) \<in> set kept" by simp_all
  with k show ?thesis by simp
qed

section \<open>The request dispatcher: theorems\<close>

lemma filter_params_result:
  "fst (filter_params self params skip) = r \<Longrightarrow> filter_params self params skip = (r, self)"
  by (auto simp: filter_params_def split: if_splits pyval.splits)

text \<open>
  C6. In every call that reaches the transport (the body was serialized and the query
  parameters were filtered) and in which the transport raises a \<^verbatim>\<open>RequestException\<close>,
  \<^verbatim>\<open>request\<close> raises \<^verbatim>\<open>ApiError("RequestException")\<close> whose cause is that exception; so
  what it raises is not the transport's exception itself.
\<close>

theorem request_wraps_transport_failure:
  assumes "serialize_body self body body_class = Inr b"
    and "fst (filter_params self params (Some [result_class, body_class])) = Inr q"
    and "session self \<lparr>req_method = method, req_url = base_url self @ ''/'' @ url,
                       req_params = q, req_json = b\<rparr> = Inl (RequestException m)"
  shows "request self url method params body body_class result_class
           = (Inl (ApiError ''RequestException'' (Some (RequestException m))), self)
       \<and> fst (request self url method params body body_class result_class) \<noteq> Inl (RequestException m)"
proof -
  have f: "filter_params self params (Some [result_class, body_class]) = (Inr q, self)"
    using assms(2) by (rule filter_params_result)
  show ?thesis
    using assms(1,3) f by (simp add: request_def request_try_def)
qed

theorem request_wraps_transport_failure_witness:
  "fst (request (demo_client\<lparr>session := refusing_session\<rparr>) ''items'' ''GET''
          (VDict [(''page'', VInt 2)]) VNone None None)
     = Inl (ApiError ''RequestException'' (Some (RequestException ''connection refused'')))"
proof -
  let ?c = "demo_client\<lparr>session := refusing_session\<rparr>"
  have 1: "serialize_body ?c VNone None = Inr VNone"
    by (simp add: serialize_body_def)
  have 2: "fst (filter_params ?c (VDict [(''page'', VInt 2)]) (Some [None, None]))
             = Inr (VDict [(''page'', VInt 2)])"
    by (simp add: filter_params_def keeps_def)
  have 3: "session ?c \<lparr>req_method = ''GET'', req_url = base_url ?c @ ''/'' @ ''items'',
                        req_params = VDict [(''page'', VInt 2)], req_json = VNone\<rparr>
             = Inl (RequestException ''connection refused'')"
    by (simp add: refusing_session_def)
  show ?thesis
    using request_wraps_transport_failure [OF 1 2 3] by simp
qed

text \<open>
  C7. The claim fails on the transport that the source imports. In every call that
  reaches the transport and in which the transport returns a response that is \<^verbatim>\<open>ok\<close>
  and whose \<^verbatim>\<open>json()\<close> raises the transport's decode error, \<^verbatim>\<open>request\<close> raises
  \<^verbatim>\<open>ApiError("RequestException")\<close>, not \<^verbatim>\<open>ApiError("Cannot decode response")\<close>: that error is
  a \<^verbatim>\<open>RequestException\<close>, and the clause of line 137 stands before the clause of line
  143. The cause is the decode error.
\<close>

theorem request_decode_failure_caught_as_transport_failure:
  assumes "serialize_body self body body_class = Inr b"
    and "fst (filter_params self params (Some [result_class, body_class])) = Inr q"
    and "session self \<lparr>req_method = method, req_url = base_url self @ ''/'' @ url,
                       req_params = q, req_json = b\<rparr> = Inr response"
    and "ok response"
    and "json response = Inl (RequestsJSONDecodeError m)"
  shows "request self url method params body body_class result_class
           = (Inl (ApiError ''RequestException'' (Some (RequestsJSONDecodeError m))), self)
       \<and> fst (request self url method params body body_class result_class)
           \<noteq> Inl (ApiError ''Cannot decode response'' (Some (RequestsJSONDecodeError m)))"
proof -
  have f: "filter_params self params (Some [result_class, body_class]) = (Inr q, self)"
    using assms(2) by (rule filter_params_result)
  show ?thesis
    using assms(1,3,4,5) f by (simp add: request_def request_try_def)
qed

theorem request_decode_failure_caught_as_transport_failure_witness:
  "fst (request (demo_client\<lparr>session := text_session\<rparr>) ''items'' ''GET''
          (VDict [(''page'', VInt 2)]) VNone None (Some (TClass ''Item'')))
     = Inl (ApiError ''RequestException'' (Some (RequestsJSONDecodeError ''Expecting value'')))"
proof -
  let ?c = "demo_client\<lparr>session := text_session\<rparr>"
  let ?r = "\<lparr>ok = True, status_code = 200, json = Inl (RequestsJSONDecodeError ''Expecting value''),
             repr = ''<Response [200]>''\<rparr>"
  have 1: "serialize_body ?c VNone None = Inr VNone"
    by (simp add: serialize_body_def)
  have 2: "fst (filter_params ?c (VDict [(''page'', VInt 2)]) (Some [Some (TClass ''Item''), None]))
             = Inr (VDict [(''page'', VInt 2)])"
    by (simp add: filter_params_def keeps_def)
  have 3: "session ?c \<lparr>req_method = ''GET'', req_url = base_url ?c @ ''/'' @ ''items'',
                        req_params = VDict [(''page'', VInt 2)], req_json = VNone\<rparr> = Inr ?r"
    by (simp add: text_session_def)
  have 4: "ok ?r" by simp
  have 5: "json ?r = Inl (RequestsJSONDecodeError ''Expecting value'')" by simp
  show ?thesis
    using request_decode_failure_caught_as_transport_failure [OF 1 2 3 4 5] by simp
qed

text \<open>
  The clause of line 143 is reached only by a decode error that is no
  \<^verbatim>\<open>RequestException\<close>, such as the \<^verbatim>\<open>JSONDecodeError\<close> of the \<^verbatim>\<open>json\<close> module itself: for
  a response whose \<^verbatim>\<open>json()\<close> raises that one, \<^verbatim>\<open>request\<close> raises
  \<^verbatim>\<open>ApiError("Cannot decode response")\<close>.
\<close>

lemma request_wraps_json_module_error:
  assumes "serialize_body self body body_class = Inr b"
    and "fst (filter_params self params (Some [result_class, body_class])) = Inr q"
    and "session self \<lparr>req_method = method, req_url = base_url self @ ''/'' @ url,
                       req_params = q, req_json = b\<rparr> = Inr response"
    and "ok response"
    and "json response = Inl (JSONDecodeError m)"
  shows "request self url method params body body_class result_class
           = (Inl (ApiError ''Cannot decode response'' (Some (JSONDecodeError m))), self)"
proof -
  have f: "filter_params self params (Some [result_class, body_class]) = (Inr q, self)"
    using assms(2) by (rule filter_params_result)
  show ?thesis
    using assms(1,3,4,5) f by (simp add: request_def request_try_def)
qed

text \<open>
  C8. In every call that reaches the transport and in which the transport returns a
  response that is \<^verbatim>\<open>ok\<close> and whose \<^verbatim>\<open>json()\<close> is the value \<open>v\<close>: with a declared result
  type \<open>T\<close> for which the serializer loads \<open>v\<close> into \<open>obj\<close>, \<^verbatim>\<open>request\<close> returns \<open>obj\<close>;
  with no declared result type it returns \<open>v\<close> itself.
\<close>

theorem request_returns_decoded_result:
  assumes "serialize_body self body body_class = Inr b"
    and "fst (filter_params self params (Some [result_class, body_class])) = Inr q"
    and "session self \<lparr>req_method = method, req_url = base_url self @ ''/'' @ url,
                       req_params = q, req_json = b\<rparr> = Inr response"
    and "ok response"
    and "json response = Inr v"
  shows "(\<forall>T obj. result_class = Some T \<and> load (factory self) v T = Inr obj
            \<longrightarrow> request self url method params body body_class result_class = (Inr obj, self))
       \<and> (result_class = None
            \<longrightarrow> request self url method params body body_class result_class = (Inr v, self))"
proof -
  have f: "filter_params self params (Some [result_class, body_class]) = (Inr q, self)"
    using assms(2) by (rule filter_params_result)
  show ?thesis
    using assms(1,3,4,5) f by (auto simp add: request_def request_try_def)
qed

theorem request_returns_decoded_result_witness:
  "fst (request demo_client ''items'' ''GET'' (VDict [(''page'', VInt 2)]) VNone None
          (Some (TClass ''Item'')))
     = Inr (VObj ''Item'' [(''method'', VStr ''GET''), (''url'', VStr ''http://api.test/items''),
                           (''params'', VDict [(''page'', VInt 2)]), (''json'', VNone)])
   \<and> fst (request demo_client ''items'' ''GET'' (VDict [(''page'', VInt 2)]) VNone None None)
     = Inr (VDict [(''method'', VStr ''GET''), (''url'', VStr ''http://api.test/items''),
                   (''params'', VDict [(''page'', VInt 2)]), (''json'', VNone)])"
proof -
  let ?v = "VDict [(''method'', VStr ''GET''), (''url'', VStr ''http://api.test/items''),
                   (''params'', VDict [(''page'', VInt 2)]), (''json'', VNone)]"
  let ?r = "\<lparr>ok = True, status_code = 200, json = Inr ?v, repr = ''<Response [200]>''\<rparr>"
  have u: "base_url demo_client = ''http://api.test''"
    by (simp add: demo_client_def BaseClient_init_def rstrip_def)
  have 1: "serialize_body demo_client VNone None = Inr VNone"
    by (simp add: serialize_body_def)
  have 2: "fst (filter_params demo_client (VDict [(''page'', VInt 2)]) (Some [rc, None]))
             = Inr (VDict [(''page'', VInt 2)])" for rc
    by (simp add: filter_params_def keeps_def)
  have 3: "session demo_client \<lparr>req_method = ''GET'', req_url = base_url demo_client @ ''/'' @ ''items'',
                        req_params = VDict [(''page'', VInt 2)], req_json = VNone\<rparr> = Inr ?r"
    by (simp add: u) (simp add: demo_client_def BaseClient_init_def echo_session_def)
  have 4: "ok ?r" by simp
  have 5: "json ?r = Inr ?v" by simp
  have l: "load (factory demo_client) ?v (TClass ''Item'')
             = Inr (VObj ''Item'' [(''method'', VStr ''GET''), (''url'', VStr ''http://api.test/items''),
                           (''params'', VDict [(''page'', VInt 2)]), (''json'', VNone)])"
    by (simp add: demo_client_def BaseClient_init_def shape_factory_def)
  show ?thesis
    using request_returns_decoded_result [OF 1 2 3 4 5, of "Some (TClass ''Item'')"]
          request_returns_decoded_result [OF 1 2 3 4 5, of None] l
    by simp
qed

section \<open>The client is left as it was\<close>

lemma filter_params_frame: "snd (filter_params self params skip) = self"
  by (simp add: filter_params_def split: pyval.splits)

lemma handle_error_frame: "snd (handle_error self method response) = self"
  by (simp add: handle_error_def split: option.splits)

lemma request_try_frame:
  "snd (request_try self url method params body body_class result_class) = self"
  using filter_params_frame [of self params "Some [result_class, body_class]"]
        handle_error_frame [of self "method"]
  by (auto simp: request_try_def split: prod.splits sum.splits option.splits)

lemma request_try_result:
  "request_try self url method params body body_class result_class = (r, s) \<Longrightarrow> s = self"
  using request_try_frame [of self url "method" params body body_class result_class] by simp

lemma request_frame: "snd (request self url method params body body_class result_class) = self"
  by (auto simp: request_def split: prod.splits sum.splits dest: request_try_result)

text \<open>
  C10. A call of \<^verbatim>\<open>request\<close>, of \<^verbatim>\<open>_filter_params\<close> or of \<^verbatim>\<open>handle_error\<close>, whether it returns
  or raises, leaves the client as it was: the client after the call is the client
  before it, so its \<^verbatim>\<open>base_url\<close>, \<^verbatim>\<open>session\<close>, \<^verbatim>\<open>error_handlers\<close> and \<^verbatim>\<open>factory\<close> are the same.
\<close>

theorem per_call_operations_frame:
  "snd (request self url method params body body_class result_class) = self
   \<and> snd (filter_params self params skip) = self
   \<and> snd (handle_error self method response) = self
   \<and> base_url (snd (request self url method params body body_class result_class)) = base_url self
   \<and> session (snd (request self url method params body body_class result_class)) = session self
   \<and> error_handlers (snd (request self url method params body body_class result_class))
       = error_handlers self
   \<and> factory (snd (request self url method params body body_class result_class)) = factory self"
  by (simp add: request_frame filter_params_frame handle_error_frame)

theorem per_call_operations_frame_witness:
  "snd (request custom_client ''items'' ''GET'' (VDict [(''page'', VInt 2)]) VNone None None)
     = custom_client
   \<and> snd (request (custom_client\<lparr>session := not_found_session\<rparr>) ''items'' ''GET'' VNone VNone None None)
     = custom_client\<lparr>session := not_found_session\<rparr>
   \<and> snd (request (custom_client\<lparr>session := refusing_session\<rparr>) ''items'' ''GET'' VNone VNone None None)
     = custom_client\<lparr>session := refusing_session\<rparr>
   \<and> snd (filter_params custom_client (VDict [(''me'', VRef 7)]) (Some [None, None])) = custom_client
   \<and> snd (handle_error custom_client ''GET'' server_error_response) = custom_client"
  using per_call_operations_frame [of custom_client "''items''" "''GET''"
          "VDict [(''page'', VInt 2)]" VNone None None "Some [None, None]" server_error_response]
        per_call_operations_frame [of "custom_client\<lparr>session := not_found_session\<rparr>"
          "''items''" "''GET''" VNone VNone None None "Some [None, None]" server_error_response]
        per_call_operations_frame [of "custom_client\<lparr>session := refusing_session\<rparr>"
          "''items''" "''GET''" VNone VNone None None "Some [None, None]" server_error_response]
        per_call_operations_frame [of custom_client "''items''" "''GET''"
          "VDict [(''me'', VRef 7)]" VNone None None "Some [None, None]" server_error_response]
  by simp

section \<open>Templates and argument binding: lemmas\<close>

lemma map_result_append: "map_result (Cons c) (map_result (append s) x) = map_result (append (c # s)) x"
  by (cases x) simp_all

lemma map_result_nil: "map_result (append []) x = x"
  by (cases x) simp_all

lemma format_lit_text:
  "CHR ''{'' \<notin> set s \<Longrightarrow> CHR ''}'' \<notin> set s \<Longrightarrow>
   format_lit kw (s @ sfx) = map_result (append s) (format_lit kw sfx)"
  by (induction s) (auto simp: map_result_append map_result_nil)

lemma format_field_name:
  "list_all (\<lambda>c. c \<noteq> CHR ''}'' \<and> \<not> outside_fragment c) p \<Longrightarrow>
   format_field kw acc (p @ CHR ''}'' # sfx) =
     (case get_value kw (acc @ p) of
        Inl e \<Rightarrow> Inl e
      | Inr v \<Rightarrow> (case str v of
                    Inl e \<Rightarrow> Inl e
                  | Inr s \<Rightarrow> map_result (append s) (format_lit kw sfx)))"
  by (induction p arbitrary: acc) auto

lemma format_lit_placeholder:
  assumes "plain_name p"
  shows "format_lit kw (CHR ''{'' # p @ CHR ''}'' # sfx) =
     (case get_value kw p of
        Inl e \<Rightarrow> Inl e
      | Inr v \<Rightarrow> (case str v of
                    Inl e \<Rightarrow> Inl e
                  | Inr s \<Rightarrow> map_result (append s) (format_lit kw sfx)))"
proof -
  from assms obtain c cs where p: "p = c # cs" by (cases p) (auto simp: plain_name_def)
  with assms have c: "c \<noteq> CHR ''{''" by (auto simp: plain_name_def outside_fragment_def)
  from assms have all: "list_all (\<lambda>c. c \<noteq> CHR ''}'' \<and> \<not> outside_fragment c) p"
    by (simp add: plain_name_def)
  have "format_lit kw (CHR ''{'' # p @ CHR ''}'' # sfx) = format_field kw [] (p @ CHR ''}'' # sfx)"
    using p c by simp
  then show ?thesis using format_field_name [OF all, of kw "[]" sfx] by simp
qed

lemma get_value_plain:
  "plain_name p \<Longrightarrow> get_value kw p = (case map_of kw p of None \<Rightarrow> Inl (KeyError p) | Some v \<Rightarrow> Inr v)"
  by (simp add: get_value_def plain_name_def)

lemma str_primitive: "primitive v \<Longrightarrow> \<exists>s. str v = Inr s"
  by (cases v) simp_all

lemma format_template_ok:
  "list_all plain_piece ps \<Longrightarrow>
   (\<forall>p. Placeholder p \<in> set ps \<longrightarrow> (\<exists>v. map_of kw p = Some v \<and> primitive v)) \<Longrightarrow>
   format_lit kw (template ps @ sfx) = map_result (append (substituted kw ps)) (format_lit kw sfx)"
proof (induction ps)
  case Nil
  then show ?case by (cases "format_lit kw sfx") (simp_all add: template_def substituted_def)
next
  case (Cons a ps)
  have IH: "format_lit kw (template ps @ sfx) = map_result (append (substituted kw ps)) (format_lit kw sfx)"
    using Cons by simp
  show ?case
  proof (cases a)
    case (Text s)
    then have "format_lit kw (template (a # ps) @ sfx) = map_result (append s) (format_lit kw (template ps @ sfx))"
      using Cons.prems(1) format_lit_text [of s kw "template ps @ sfx"] by (simp add: template_def)
    then show ?thesis using IH Text
      by (cases "format_lit kw sfx") (simp_all add: substituted_def)
  next
    case (Placeholder p)
    then obtain v where v: "map_of kw p = Some v" "primitive v" using Cons.prems(2) by auto
    then obtain s where s: "str v = Inr s" using str_primitive by blast
    have pn: "plain_name p" using Cons.prems(1) Placeholder by simp
    have "format_lit kw (template (a # ps) @ sfx) = map_result (append s) (format_lit kw (template ps @ sfx))"
      using Placeholder format_lit_placeholder [OF pn, of kw "template ps @ sfx"] v s
      by (simp add: template_def get_value_plain [OF pn])
    then show ?thesis using IH Placeholder v s
      by (cases "format_lit kw sfx") (simp_all add: substituted_def)
  qed
qed

lemma format_template_missing:
  "list_all plain_piece ps \<Longrightarrow> Placeholder p \<in> set ps \<Longrightarrow> map_of kw p = None \<Longrightarrow>
   (\<forall>n v. Placeholder n \<in> set ps \<longrightarrow> map_of kw n = Some v \<longrightarrow> primitive v) \<Longrightarrow>
   \<exists>q. format_lit kw (template ps @ sfx) = Inl (KeyError q) \<and> Placeholder q \<in> set ps \<and> map_of kw q = None"
proof (induction ps)
  case Nil
  then show ?case by simp
next
  case (Cons a ps)
  show ?case
  proof (cases a)
    case (Text s)
    then have e: "format_lit kw (template (a # ps) @ sfx) = map_result (append s) (format_lit kw (template ps @ sfx))"
      using Cons.prems(1) format_lit_text [of s kw "template ps @ sfx"] by (simp add: template_def)
    from Text Cons.prems have "Placeholder p \<in> set ps" by simp
    with Cons obtain q where "format_lit kw (template ps @ sfx) = Inl (KeyError q)"
      "Placeholder q \<in> set ps" "map_of kw q = None" by auto
    with e show ?thesis by auto
  next
    case (Placeholder n)
    have pn: "plain_name n" using Cons.prems(1) Placeholder by simp
    have e: "format_lit kw (template (a # ps) @ sfx) =
       (case get_value kw n of
          Inl e \<Rightarrow> Inl e
        | Inr v \<Rightarrow> (case str v of
                    Inl e \<Rightarrow> Inl e
                  | Inr s \<Rightarrow> map_result (append s) (format_lit kw (template ps @ sfx))))"
      using Placeholder format_lit_placeholder [OF pn, of kw "template ps @ sfx"]
      by (simp add: template_def)
    show ?thesis
    proof (cases "map_of kw n")
      case None
      then show ?thesis using e Placeholder by (auto simp: get_value_plain [OF pn])
    next
      case (Some v)
      then have "primitive v" using Cons.prems(4) Placeholder by auto
      then obtain s where s: "str v = Inr s" using str_primitive by blast
      from Some Cons.prems(2,3) Placeholder have "Placeholder p \<in> set ps" by auto
      with Cons obtain q where "format_lit kw (template ps @ sfx) = Inl (KeyError q)"
        "Placeholder q \<in> set ps" "map_of kw q = None" by auto
      then show ?thesis using e Some s by (auto simp: get_value_plain [OF pn])
    qed
  qed
qed

lemma keys_zip: "map fst (zip xs ys) = take (length ys) xs"
proof (induction xs arbitrary: ys)
  case Nil
  show ?case by simp
next
  case (Cons x xs)
  show ?case by (cases ys) (simp_all add: Cons.IH)
qed

lemma zip_snoc:
  "length ys < length xs \<Longrightarrow> zip xs (ys @ [y]) = zip xs ys @ [(xs ! length ys, y)]"
proof (induction xs arbitrary: ys)
  case Nil
  then show ?case by simp
next
  case (Cons x xs)
  then show ?case by (cases ys) (auto simp: zip_Cons1 split: list.splits)
qed

lemma map_of_defaults:
  "map_of (List.map_filter (\<lambda>arg. map_option (Pair arg) (m arg)) xs) p
     = (if p \<in> set xs then m p else None)"
  by (induction xs) (auto simp: List.map_filter_simps split: option.splits)

lemma getcallargs_InrE:
  assumes "getcallargs f positional named = Inr params"
  obtains bound unbound dflt where
    "bound = zip (fargs f) positional"
    "unbound = filter (\<lambda>arg. arg \<notin> set (map fst (bound @ named))) (fargs f)"
    "dflt = List.map_filter (\<lambda>arg. map_option (Pair arg) (map_of (fdefaults f) arg)) unbound"
    "params = bound @ named @ dflt"
    "\<not> list_ex (\<lambda>(kw, value). kw \<notin> set (fargs f) \<or> kw \<in> set (map fst bound)) named"
    "length positional \<le> length (fargs f)"
    "\<not> list_ex (\<lambda>arg. arg \<notin> set (map fst (fdefaults f))) unbound"
proof -
  define bound where "bound = zip (fargs f) positional"
  define unbound where "unbound = filter (\<lambda>arg. arg \<notin> set (map fst (bound @ named))) (fargs f)"
  define dflt where "dflt = List.map_filter (\<lambda>arg. map_option (Pair arg) (map_of (fdefaults f) arg)) unbound"
  have unf: "getcallargs f positional named =
    (if list_ex (\<lambda>(kw, value). kw \<notin> set (fargs f) \<or> kw \<in> set (map fst bound)) named
     then Inl TypeError
     else if length (fargs f) < length positional then Inl TypeError
     else if list_ex (\<lambda>arg. arg \<notin> set (map fst (fdefaults f))) unbound then Inl TypeError
     else Inr ((bound @ named) @ dflt))"
    by (simp only: getcallargs_def Let_def bound_def unbound_def dflt_def)
  from assms have "params = bound @ named @ dflt"
    and "\<not> list_ex (\<lambda>(kw, value). kw \<notin> set (fargs f) \<or> kw \<in> set (map fst bound)) named"
    and "length positional \<le> length (fargs f)"
    and "\<not> list_ex (\<lambda>arg. arg \<notin> set (map fst (fdefaults f))) unbound"
    unfolding unf by (simp_all split: if_splits)
  then show ?thesis using that bound_def unbound_def dflt_def by blast
qed

lemma getcallargs_keys:
  assumes "getcallargs f positional named = Inr params"
  shows "fst ` set params \<subseteq> set (fargs f)"
proof -
  from assms obtain bound unbound dflt where
    b: "bound = zip (fargs f) positional"
    and u: "unbound = filter (\<lambda>arg. arg \<notin> set (map fst (bound @ named))) (fargs f)"
    and df: "dflt = List.map_filter (\<lambda>arg. map_option (Pair arg) (map_of (fdefaults f) arg)) unbound"
    and p: "params = bound @ named @ dflt"
    and chk: "\<not> list_ex (\<lambda>(kw, value). kw \<notin> set (fargs f) \<or> kw \<in> set (map fst bound)) named"
    by (rule getcallargs_InrE)
  have 1: "fst ` set bound \<subseteq> set (fargs f)"
    unfolding b by (auto dest: set_zip_leftD)
  have 2: "fst ` set named \<subseteq> set (fargs f)"
    using chk by (auto simp: list_ex_iff)
  have "set unbound \<subseteq> set (fargs f)" unfolding u by auto
  then have 3: "fst ` set dflt \<subseteq> set (fargs f)"
    unfolding df by (auto simp: List.map_filter_def)
  show ?thesis unfolding p using 1 2 3 by auto
qed

lemma getcallargs_binds_all:
  assumes "getcallargs f positional named = Inr params"
  shows "set (fargs f) \<subseteq> fst ` set params"
proof
  fix a assume a: "a \<in> set (fargs f)"
  from assms obtain bound unbound dflt where
    u: "unbound = filter (\<lambda>arg. arg \<notin> set (map fst (bound @ named))) (fargs f)"
    and df: "dflt = List.map_filter (\<lambda>arg. map_option (Pair arg) (map_of (fdefaults f) arg)) unbound"
    and p: "params = bound @ named @ dflt"
    and chk: "\<not> list_ex (\<lambda>arg. arg \<notin> set (map fst (fdefaults f))) unbound"
    by (rule getcallargs_InrE)
  show "a \<in> fst ` set params"
  proof (cases "a \<in> set (map fst (bound @ named))")
    case True
    then show ?thesis unfolding p by auto
  next
    case False
    then have au: "a \<in> set unbound" unfolding u using a by simp
    then have "a \<in> set (map fst (fdefaults f))" using chk by (auto simp: list_ex_iff)
    then obtain d where "map_of (fdefaults f) a = Some d"
      by (metis map_of_eq_None_iff not_Some_eq set_map)
    then have "map_of dflt a = Some d"
      unfolding df using au by (simp only: map_of_defaults if_True)
    then have "a \<in> fst ` set dflt" by (metis map_of_eq_None_iff option.distinct(1))
    then show ?thesis unfolding p by auto
  qed
qed

lemma getcallargs_default:
  assumes "getcallargs f positional named = Inr params"
    and "p \<in> set (fargs f)"
    and "p \<notin> set (take (length positional) (fargs f))"
    and "p \<notin> fst ` set named"
    and "map_of (fdefaults f) p = Some d"
  shows "map_of params p = Some d"
proof -
  from assms(1) obtain bound unbound dflt where
    b: "bound = zip (fargs f) positional"
    and u: "unbound = filter (\<lambda>arg. arg \<notin> set (map fst (bound @ named))) (fargs f)"
    and df: "dflt = List.map_filter (\<lambda>arg. map_option (Pair arg) (map_of (fdefaults f) arg)) unbound"
    and p: "params = bound @ named @ dflt"
    by (rule getcallargs_InrE)
  have kb: "map fst bound = take (length positional) (fargs f)"
    unfolding b by (rule keys_zip)
  have bn: "map_of bound p = None"
    using assms(3) kb by (metis map_of_eq_None_iff set_map)
  have n: "map_of named p = None"
    using assms(4) by (simp add: map_of_eq_None_iff)
  have "p \<in> set unbound"
    unfolding u using assms(2,3,4) kb by auto
  then have "map_of dflt p = Some d"
    unfolding df using assms(5) by (simp only: map_of_defaults if_True)
  then show ?thesis unfolding p by (simp add: map_add_def bn n)
qed

lemma getcallargs_named:
  assumes "getcallargs f positional named = Inr params"
    and "(n, w) \<in> set named"
    and "distinct (map fst named)"
  shows "map_of params n = Some w"
proof -
  from assms(1) obtain bound unbound dflt where
    p: "params = bound @ named @ dflt"
    and chk: "\<not> list_ex (\<lambda>(kw, value). kw \<notin> set (fargs f) \<or> kw \<in> set (map fst bound)) named"
    by (rule getcallargs_InrE)
  have "\<not> (n \<notin> set (fargs f) \<or> n \<in> set (map fst bound))"
    using chk assms(2) unfolding list_ex_iff by blast
  then have b: "map_of bound n = None" by (simp add: map_of_eq_None_iff)
  have "map_of named n = Some w" using assms(2,3) by simp
  then show ?thesis
    unfolding p using b by (simp add: map_add_def)
qed

lemma get_value_cong: "map_of a = map_of b \<Longrightarrow> get_value a n = get_value b n"
  by (simp add: get_value_def)

lemma format_lit_field_cong:
  "map_of a = map_of b \<Longrightarrow> format_lit a cs = format_lit b cs"
  "map_of a = map_of b \<Longrightarrow> format_field a name cs = format_field b name cs"
proof (induction a cs and a name cs rule: format_lit_format_field.induct)
  case (1 kwargs)
  then show ?case by simp
next
  case (2 kwargs c cs)
  then show ?case by (auto split: list.splits)
next
  case (3 kwargs name)
  then show ?case by simp
next
  case (4 kwargs name c cs)
  then show ?case by (auto simp: get_value_cong [of kwargs b] split: sum.splits)
qed


lemma nth_notin_take: "distinct xs \<Longrightarrow> n < length xs \<Longrightarrow> xs ! n \<notin> set (take n xs)"
  by (auto simp: in_set_conv_nth distinct_conv_nth)

lemma getcallargs_positional_named:
  assumes d: "distinct (fargs f)"
    and n: "length positional < length (fargs f)"
    and p: "p = fargs f ! length positional"
    and k: "p \<notin> fst ` set named"
  shows "(getcallargs f (positional @ [v]) named = Inl TypeError
            \<and> getcallargs f positional (named @ [(p, v)]) = Inl TypeError)
       \<or> (\<exists>a b. getcallargs f (positional @ [v]) named = Inr a
            \<and> getcallargs f positional (named @ [(p, v)]) = Inr b \<and> map_of a = map_of b)"
proof -
  define b0 where "b0 = zip (fargs f) positional"
  define U where "U = filter (\<lambda>arg. arg \<notin> set (map fst (b0 @ named @ [(p, v)]))) (fargs f)"
  define D where "D = List.map_filter (\<lambda>arg. map_option (Pair arg) (map_of (fdefaults f) arg)) U"
  define C1 where "C1 = list_ex (\<lambda>(kw, value). kw \<notin> set (fargs f) \<or> kw \<in> set (map fst b0)) named"
  define C3 where "C3 = list_ex (\<lambda>arg. arg \<notin> set (map fst (fdefaults f))) U"
  have z: "zip (fargs f) (positional @ [v]) = b0 @ [(p, v)]"
    unfolding b0_def using zip_snoc [OF n] p by simp
  have k0: "map fst b0 = take (length positional) (fargs f)"
    unfolding b0_def by (rule keys_zip)
  have pA: "p \<in> set (fargs f)" using n p by simp
  have pn: "p \<notin> set (map fst b0)"
    unfolding k0 p using d n by (rule nth_notin_take)
  have c1a: "list_ex (\<lambda>(kw, value). kw \<notin> set (fargs f) \<or> kw \<in> set (map fst (b0 @ [(p, v)]))) named = C1"
    unfolding C1_def
  proof (rule list_ex_cong [OF refl])
    fix x assume "x \<in> set named"
    then have "fst x \<noteq> p" using k by auto
    then show "(case x of (kw, value) \<Rightarrow> kw \<notin> set (fargs f) \<or> kw \<in> set (map fst (b0 @ [(p, v)])))
             = (case x of (kw, value) \<Rightarrow> kw \<notin> set (fargs f) \<or> kw \<in> set (map fst b0))"
      by (cases x) auto
  qed
  have c1b: "list_ex (\<lambda>(kw, value). kw \<notin> set (fargs f) \<or> kw \<in> set (map fst b0)) (named @ [(p, v)]) = C1"
    unfolding C1_def using pA pn by (auto simp: list_ex_iff)
  have u1: "filter (\<lambda>arg. arg \<notin> set (map fst ((b0 @ [(p, v)]) @ named))) (fargs f) = U"
    unfolding U_def by (rule filter_cong) auto
  have u0: "filter (\<lambda>arg. arg \<notin> set (map fst (b0 @ (named @ [(p, v)])))) (fargs f) = U"
    unfolding U_def by simp
  have l1: "\<not> length (fargs f) < length (positional @ [v])" using n by simp
  have l0: "\<not> length (fargs f) < length positional" using n by simp
  have L: "getcallargs f (positional @ [v]) named =
    (if C1 then Inl TypeError else if C3 then Inl TypeError else Inr (((b0 @ [(p, v)]) @ named) @ D))"
    by (simp only: getcallargs_def Let_def z c1a u1 l1 if_False C3_def D_def)
  have R: "getcallargs f positional (named @ [(p, v)]) =
    (if C1 then Inl TypeError else if C3 then Inl TypeError else Inr ((b0 @ (named @ [(p, v)])) @ D))"
    by (simp only: getcallargs_def Let_def b0_def [symmetric] c1b u0 l0 if_False C3_def D_def)
  have m: "map_of (((b0 @ [(p, v)]) @ named) @ D) = map_of ((b0 @ (named @ [(p, v)])) @ D)"
  proof
    fix x
    have "map_of named p = None" using k by (simp add: map_of_eq_None_iff)
    then show "map_of (((b0 @ [(p, v)]) @ named) @ D) x = map_of ((b0 @ (named @ [(p, v)])) @ D) x"
      by (cases "x = p") (auto simp: map_add_def split: option.splits)
  qed
  show ?thesis unfolding L R using m by auto
qed

lemma parse_lit_text:
  "CHR ''{'' \<notin> set s \<Longrightarrow> CHR ''}'' \<notin> set s \<Longrightarrow> parse_lit lit (s @ sfx) = parse_lit (lit @ s) sfx"
  by (induction s arbitrary: lit) auto

lemma parse_field_name:
  "list_all (\<lambda>c. c \<noteq> CHR ''}'' \<and> \<not> outside_fragment c) p \<Longrightarrow>
   parse_field lit acc (p @ CHR ''}'' # sfx) = map_result (Cons (lit, Some (acc @ p))) (parse_lit [] sfx)"
  by (induction p arbitrary: acc) auto

lemma parse_lit_placeholder:
  assumes "plain_name p"
  shows "parse_lit lit (CHR ''{'' # p @ CHR ''}'' # sfx) = map_result (Cons (lit, Some p)) (parse_lit [] sfx)"
proof -
  from assms obtain c cs where p: "p = c # cs" by (cases p) (auto simp: plain_name_def)
  with assms have c: "c \<noteq> CHR ''{''" by (auto simp: plain_name_def outside_fragment_def)
  from assms have all: "list_all (\<lambda>c. c \<noteq> CHR ''}'' \<and> \<not> outside_fragment c) p"
    by (simp add: plain_name_def)
  have "parse_lit lit (CHR ''{'' # p @ CHR ''}'' # sfx) = parse_field lit [] (p @ CHR ''}'' # sfx)"
    using p c by simp
  then show ?thesis using parse_field_name [OF all, of lit "[]" sfx] by simp
qed

lemma parse_lit_template:
  "list_all plain_piece ps \<Longrightarrow> \<exists>parsed. parse_lit lit (template ps) = Inr parsed"
proof (induction ps arbitrary: lit)
  case Nil
  then show ?case by (simp add: template_def)
next
  case (Cons a ps)
  show ?case
  proof (cases a)
    case (Text s)
    then have "parse_lit lit (template (a # ps)) = parse_lit (lit @ s) (template ps)"
      using Cons.prems parse_lit_text [of s lit "template ps"] by (simp add: template_def)
    then show ?thesis using Cons.IH [of "lit @ s"] Cons.prems by simp
  next
    case (Placeholder p)
    then have pn: "plain_name p" using Cons.prems by simp
    obtain parsed where "parse_lit [] (template ps) = Inr parsed"
      using Cons.IH [of "[]"] Cons.prems by auto
    then show ?thesis
      using Placeholder parse_lit_placeholder [OF pn, of lit "template ps"] by (simp add: template_def)
  qed
qed

lemma rest_declared:
  "parse url_format = Inr parsed \<Longrightarrow> \<exists>route. rest url_format verb body_name f = Inr route"
  by (simp add: rest_def Let_def)

lemma rest_fields:
  "rest url_format verb body_name f = Inr route \<Longrightarrow> r_func route = f \<and> r_url_format route = url_format"
  by (auto simp: rest_def Let_def split: sum.splits)

lemma get_item_route_declared: "get ''items/{id}/{verbose}'' get_item = Inr get_item_route"
  by (simp add: get_def rest_def Let_def parse_def outside_fragment_def create_args_class_def
      get_item_def get_item_route_def)

lemma add_note_route_declared: "post ''notes'' ''body'' add_note = Inr add_note_route"
  by (simp add: post_def rest_def Let_def parse_def outside_fragment_def create_args_class_def
      add_note_def add_note_route_def)

section \<open>Declaration and URL building: theorems\<close>

text \<open>
  C3, as stated, fails. The method \<^verbatim>\<open>get_item(self, id, verbose=False)\<close> declared with
  the template \<^verbatim>\<open>items/{missing}\<close>, whose placeholder is no parameter of the method, is
  declared without an error: the decorator returns the wrapper.
\<close>

theorem missing_placeholder_counterexample:
  "get ''items/{missing}'' get_item =
     Inr \<lparr>r_func = get_item, r_url_format = ''items/{missing}'', r_method = ''GET'',
          r_body_name = '''', r_result_class = Some (TClass ''Item''), r_body_class = None,
          r_args_class = TTypedDict ''get_item_Args''
                           [(''id'', TClass ''int''), (''verbose'', TClass ''bool'')]\<rparr>
   \<and> ''missing'' \<notin> set (fargs get_item)"
  by (simp add: get_def rest_def Let_def parse_def outside_fragment_def create_args_class_def get_item_def)

text \<open>
  C3, amended. Declaring a method whose template of plain pieces has a placeholder
  \<^verbatim>\<open>{p}\<close> that is no parameter of the method does not fail: the decorator returns the
  wrapper. The missing parameter shows when the method is called: every call whose
  arguments bind (and whose bound placeholders have primitive values) raises
  \<^verbatim>\<open>KeyError\<close> for a placeholder that is no parameter, while the URL is built, and
  leaves the client as it was.
\<close>

theorem missing_placeholder_fails_at_call:
  assumes "list_all plain_piece pieces"
    and "Placeholder p \<in> set pieces"
    and "p \<notin> set (fargs f)"
  shows "(\<exists>route. rest (template pieces) verb body_name f = Inr route)
       \<and> (\<forall>route self args kwargs params.
             rest (template pieces) verb body_name f = Inr route
             \<and> getcallargs f (VRef (ident self) # args) kwargs = Inr params
             \<and> (\<forall>n v. Placeholder n \<in> set pieces \<and> map_of params n = Some v \<longrightarrow> primitive v)
           \<longrightarrow> (\<exists>q. inner route self args kwargs = (Inl (KeyError q), self)
                    \<and> Placeholder q \<in> set pieces \<and> q \<notin> set (fargs f)))"
proof (intro conjI allI impI)
  obtain parsed where "parse (template pieces) = Inr parsed"
    using parse_lit_template [OF assms(1), of "[]"] by (auto simp: parse_def)
  then show "\<exists>route. rest (template pieces) verb body_name f = Inr route"
    by (rule rest_declared)
next
  fix route and self :: client and args kwargs params
  assume a: "rest (template pieces) verb body_name f = Inr route
             \<and> getcallargs f (VRef (ident self) # args) kwargs = Inr params
             \<and> (\<forall>n v. Placeholder n \<in> set pieces \<and> map_of params n = Some v \<longrightarrow> primitive v)"
  then have r: "r_func route = f" "r_url_format route = template pieces"
    using rest_fields by blast+
  from a have g: "getcallargs f (VRef (ident self) # args) kwargs = Inr params" by simp
  have keys: "fst ` set params \<subseteq> set (fargs f)"
    using g by (rule getcallargs_keys)
  then have none: "map_of params n = None" if "n \<notin> set (fargs f)" for n
    using that by (meson map_of_eq_None_iff subsetD)
  have prim: "\<forall>n v. Placeholder n \<in> set pieces \<longrightarrow> map_of params n = Some v \<longrightarrow> primitive v"
    using a by blast
  obtain q where q: "format_lit params (template pieces @ []) = Inl (KeyError q)"
      "Placeholder q \<in> set pieces" "map_of params q = None"
    using format_template_missing [OF assms(1,2) none [OF assms(3)] prim, of "[]"] by blast
  have "q \<in> fst ` set params" if "q \<in> set (fargs f)"
    using that getcallargs_binds_all [OF g] by blast
  then have qf: "q \<notin> set (fargs f)"
    using q(3) by (metis map_of_eq_None_iff)
  have "format (r_url_format route) params = Inl (KeyError q)"
    using q(1) r(2) by (simp add: format_def)
  then have "inner route self args kwargs = (Inl (KeyError q), self)"
    using g r(1) by (simp add: inner_def)
  then show "\<exists>q. inner route self args kwargs = (Inl (KeyError q), self)
            \<and> Placeholder q \<in> set pieces \<and> q \<notin> set (fargs f)"
    using q(2) qf by blast
qed

theorem missing_placeholder_fails_at_call_witness:
  "\<exists>route. get ''items/{missing}'' get_item = Inr route
     \<and> inner route demo_client [VInt 7] [] = (Inl (KeyError ''missing''), demo_client)"
proof -
  let ?ps = "[Text ''items/'', Placeholder ''missing'']"
  have 1: "list_all plain_piece ?ps"
    by (simp add: plain_name_def is_digit_def outside_fragment_def)
  have 2: "Placeholder ''missing'' \<in> set ?ps" by simp
  have 3: "''missing'' \<notin> set (fargs get_item)" by (simp add: get_item_def)
  have t: "template ?ps = ''items/{missing}''" by (simp add: template_def)
  have g: "getcallargs get_item (VRef (ident demo_client) # [VInt 7]) []
             = Inr [(''self'', VRef 7), (''id'', VInt 7), (''verbose'', VBool False)]"
    by (simp add: getcallargs_def get_item_def demo_client_def BaseClient_init_def
        List.map_filter_simps)
  from missing_placeholder_fails_at_call [OF 1 2 3, of "''GET''" "''''"]
  obtain route where r: "rest (template ?ps) ''GET'' '''' get_item = Inr route"
    and c: "\<forall>self args kwargs params.
             rest (template ?ps) ''GET'' '''' get_item = Inr route
             \<and> getcallargs get_item (VRef (ident self) # args) kwargs = Inr params
             \<and> (\<forall>n v. Placeholder n \<in> set ?ps \<and> map_of params n = Some v \<longrightarrow> primitive v)
           \<longrightarrow> (\<exists>q. inner route self args kwargs = (Inl (KeyError q), self)
                    \<and> Placeholder q \<in> set ?ps \<and> q \<notin> set (fargs get_item))"
    by blast
  have "\<exists>q. inner route demo_client [VInt 7] [] = (Inl (KeyError q), demo_client)
            \<and> Placeholder q \<in> set ?ps \<and> q \<notin> set (fargs get_item)"
    using c [rule_format, of demo_client "[VInt 7]" "[]"
        "[(''self'', VRef 7), (''id'', VInt 7), (''verbose'', VBool False)]"] r g
    by simp
  then have "inner route demo_client [VInt 7] [] = (Inl (KeyError ''missing''), demo_client)"
    by auto
  then show ?thesis using r t by (auto simp: get_def)
qed

text \<open>
  C9. For a method whose URL template consists of plain pieces: when the arguments of
  a call bind and every placeholder is bound to a primitive value, the URL built is
  the template with each placeholder replaced by the string form of the value bound
  to it. An argument gives the same URL whether it is passed as the next positional
  argument or by the name of that parameter. A value passed by name is the value
  bound to that name, and a parameter that the call leaves out is bound to its
  declared default.
\<close>

theorem built_url_substitution:
  "(getcallargs (r_func r) (VRef (ident self) # args) kwargs = Inr params
      \<and> r_url_format r = template pieces \<and> list_all plain_piece pieces
      \<and> (\<forall>p. Placeholder p \<in> set pieces \<longrightarrow> (\<exists>v. map_of params p = Some v \<and> primitive v))
     \<longrightarrow> built_url r self args kwargs = Inr (substituted params pieces))
   \<and> (distinct (fargs (r_func r)) \<and> Suc (length args) < length (fargs (r_func r))
      \<and> p = fargs (r_func r) ! Suc (length args) \<and> p \<notin> fst ` set kwargs
     \<longrightarrow> built_url r self (args @ [v]) kwargs = built_url r self args (kwargs @ [(p, v)]))
   \<and> (getcallargs (r_func r) (VRef (ident self) # args) kwargs = Inr params
      \<and> (n, w) \<in> set kwargs \<and> distinct (map fst kwargs)
     \<longrightarrow> map_of params n = Some w)
   \<and> (getcallargs (r_func r) (VRef (ident self) # args) kwargs = Inr params
      \<and> q \<in> set (fargs (r_func r)) \<and> q \<notin> set (take (Suc (length args)) (fargs (r_func r)))
      \<and> q \<notin> fst ` set kwargs \<and> map_of (fdefaults (r_func r)) q = Some d
     \<longrightarrow> map_of params q = Some d)"
proof (intro conjI impI)
  assume a: "getcallargs (r_func r) (VRef (ident self) # args) kwargs = Inr params
      \<and> r_url_format r = template pieces \<and> list_all plain_piece pieces
      \<and> (\<forall>p. Placeholder p \<in> set pieces \<longrightarrow> (\<exists>v. map_of params p = Some v \<and> primitive v))"
  then have "format_lit params (template pieces @ [])
               = map_result (append (substituted params pieces)) (format_lit params [])"
    using format_template_ok [of pieces params "[]"] by blast
  then have "format (r_url_format r) params = Inr (substituted params pieces)"
    using a by (simp add: format_def)
  then show "built_url r self args kwargs = Inr (substituted params pieces)"
    using a by (simp add: built_url_def)
next
  assume a: "distinct (fargs (r_func r)) \<and> Suc (length args) < length (fargs (r_func r))
      \<and> p = fargs (r_func r) ! Suc (length args) \<and> p \<notin> fst ` set kwargs"
  let ?pos = "VRef (ident self) # args"
  from a have d: "distinct (fargs (r_func r))"
    and n0: "Suc (length args) < length (fargs (r_func r))"
    and p0: "p = fargs (r_func r) ! Suc (length args)"
    and k: "p \<notin> fst ` set kwargs"
    by blast+
  have n: "length ?pos < length (fargs (r_func r))" using n0 by simp
  have p: "p = fargs (r_func r) ! length ?pos" using p0 by simp
  have "(getcallargs (r_func r) (?pos @ [v]) kwargs = Inl TypeError
            \<and> getcallargs (r_func r) ?pos (kwargs @ [(p, v)]) = Inl TypeError)
       \<or> (\<exists>a b. getcallargs (r_func r) (?pos @ [v]) kwargs = Inr a
            \<and> getcallargs (r_func r) ?pos (kwargs @ [(p, v)]) = Inr b \<and> map_of a = map_of b)"
    by (rule getcallargs_positional_named [OF d n p k])
  then show "built_url r self (args @ [v]) kwargs = built_url r self args (kwargs @ [(p, v)])"
  proof (elim disjE conjE exE)
    assume "getcallargs (r_func r) (?pos @ [v]) kwargs = Inl TypeError"
      and "getcallargs (r_func r) ?pos (kwargs @ [(p, v)]) = Inl TypeError"
    then show ?thesis by (simp add: built_url_def)
  next
    fix a b
    assume "getcallargs (r_func r) (?pos @ [v]) kwargs = Inr a"
      and "getcallargs (r_func r) ?pos (kwargs @ [(p, v)]) = Inr b"
      and m: "map_of a = map_of b"
    then show ?thesis
      using format_lit_field_cong(1) [OF m, of "r_url_format r"]
      by (simp add: built_url_def format_def)
  qed
next
  assume a: "getcallargs (r_func r) (VRef (ident self) # args) kwargs = Inr params
      \<and> (n, w) \<in> set kwargs \<and> distinct (map fst kwargs)"
  then show "map_of params n = Some w"
    using getcallargs_named [of "r_func r" "VRef (ident self) # args" kwargs params n w] by blast
next
  assume a: "getcallargs (r_func r) (VRef (ident self) # args) kwargs = Inr params
      \<and> q \<in> set (fargs (r_func r)) \<and> q \<notin> set (take (Suc (length args)) (fargs (r_func r)))
      \<and> q \<notin> fst ` set kwargs \<and> map_of (fdefaults (r_func r)) q = Some d"
  then show "map_of params q = Some d"
    using getcallargs_default [of "r_func r" "VRef (ident self) # args" kwargs params q d] by simp
qed

theorem built_url_substitution_witness:
  "built_url get_item_route demo_client [VInt 7] [] = Inr ''items/7/False''
   \<and> built_url get_item_route demo_client [] [(''id'', VInt 7)] = Inr ''items/7/False''
   \<and> (\<exists>params. getcallargs get_item [VRef 7] [(''id'', VInt 7)] = Inr params
         \<and> map_of params ''id'' = Some (VInt 7) \<and> map_of params ''verbose'' = Some (VBool False))"
proof -
  let ?ps = "[Text ''items/'', Placeholder ''id'', Text ''/'', Placeholder ''verbose'']"
  let ?params = "[(''self'', VRef 7), (''id'', VInt 7), (''verbose'', VBool False)]"
  let ?named = "[(''self'', VRef 7), (''id'', VInt 7), (''verbose'', VBool False)]"
  have i: "ident demo_client = 7" by (simp add: demo_client_def BaseClient_init_def)
  have f: "r_func get_item_route = get_item" by (simp add: get_item_route_def)
  have g: "getcallargs (r_func get_item_route) (VRef (ident demo_client) # [VInt 7]) [] = Inr ?params"
    by (simp add: f i getcallargs_def get_item_def List.map_filter_simps)
  have h: "getcallargs (r_func get_item_route) (VRef (ident demo_client) # []) [(''id'', VInt 7)]
             = Inr ?named"
    by (simp add: f i getcallargs_def get_item_def List.map_filter_simps)
  have t: "r_url_format get_item_route = template ?ps"
    by (simp add: get_item_route_def template_def)
  have pl: "list_all plain_piece ?ps"
    by (simp add: plain_name_def is_digit_def outside_fragment_def)
  have bd: "\<forall>p. Placeholder p \<in> set ?ps \<longrightarrow> (\<exists>v. map_of ?params p = Some v \<and> primitive v)"
    by auto
  have s: "substituted ?params ?ps = ''items/7/False''"
    by (simp add: substituted_def str_int_def digit_char_def)
  have 1: "built_url get_item_route demo_client [VInt 7] [] = Inr ''items/7/False''"
    using built_url_substitution [where r = get_item_route and self = demo_client
        and args = "[VInt 7]" and kwargs = "[]" and params = ?params and pieces = ?ps]
      g t pl bd s by simp
  have 2: "built_url get_item_route demo_client ([] @ [VInt 7]) []
             = built_url get_item_route demo_client [] ([] @ [(''id'', VInt 7)])"
    using built_url_substitution [where r = get_item_route and self = demo_client
        and args = "[]" and kwargs = "[]" and p = "''id''" and v = "VInt 7"]
    by (simp add: f get_item_def)
  have 3: "map_of ?named ''id'' = Some (VInt 7)"
    using built_url_substitution [where r = get_item_route and self = demo_client
        and args = "[]" and kwargs = "[(''id'', VInt 7)]" and params = ?named
        and n = "''id''" and w = "VInt 7"] h
    by simp
  have 4: "map_of ?named ''verbose'' = Some (VBool False)"
    using built_url_substitution [where r = get_item_route and self = demo_client
        and args = "[]" and kwargs = "[(''id'', VInt 7)]" and params = ?named
        and q = "''verbose''" and d = "VBool False"] h
    by (simp add: f get_item_def)
  have "getcallargs get_item [VRef 7] [(''id'', VInt 7)] = Inr ?named"
    using h by (simp add: f i)
  then show ?thesis using 1 2 3 4 by auto
qed

section \<open>The body parameter: theorems\<close>

lemma dict_get_Inr:
  "dict_get v k = Inr x \<Longrightarrow> \<exists>kvs. v = VDict kvs \<and> x = (case map_of kvs k of None \<Rightarrow> VNone | Some y \<Rightarrow> y)"
  by (cases v) auto

lemma inner_reaches_request:
  assumes "fst (inner r self args kwargs) = Inr x"
  shows "\<exists>params url dumped.
           getcallargs (r_func r) (VRef (ident self) # args) kwargs = Inr params
         \<and> format (r_url_format r) params = Inr url
         \<and> dump (factory self) (VDict params) (r_args_class r) = Inr (VDict dumped)
         \<and> inner r self args kwargs =
             request self url (r_method r) (VDict dumped)
               (case map_of dumped (r_body_name r) of None \<Rightarrow> VNone | Some y \<Rightarrow> y)
               (r_body_class r) (r_result_class r)"
proof (cases "getcallargs (r_func r) (VRef (ident self) # args) kwargs")
  case (Inl e)
  then show ?thesis using assms by (simp add: inner_def)
next
  case g: (Inr params)
  show ?thesis
  proof (cases "format (r_url_format r) params")
    case (Inl e)
    then show ?thesis using assms g by (simp add: inner_def)
  next
    case f: (Inr url)
    show ?thesis
    proof (cases "dump (factory self) (VDict params) (r_args_class r)")
      case (Inl e)
      then show ?thesis using assms g f by (simp add: inner_def)
    next
      case d: (Inr params1)
      show ?thesis
      proof (cases "dict_get params1 (r_body_name r)")
        case (Inl e)
        then show ?thesis using assms g f d by (simp add: inner_def)
      next
        case (Inr body)
        then obtain kvs where "params1 = VDict kvs"
          "body = (case map_of kvs (r_body_name r) of None \<Rightarrow> VNone | Some y \<Rightarrow> y)"
          using dict_get_Inr by blast
        then show ?thesis using g f d Inr by (simp add: inner_def)
      qed
    qed
  qed
qed

lemma request_echo:
  assumes "session self = echo_session"
    and "fst (request self url verb (VDict dumped) body bc None) = Inr x"
  shows "\<exists>b. serialize_body self body bc = Inr b
           \<and> x = VDict [(''method'', VStr verb), (''url'', VStr (base_url self @ ''/'' @ url)),
                         (''params'', VDict (filter (\<lambda>(k, v). keeps self (Some [None, bc]) v) dumped)),
                         (''json'', b)]"
proof (cases "serialize_body self body bc")
  case (Inl e)
  then show ?thesis using assms(2) by (simp add: request_def)
next
  case (Inr b)
  have "filter_params self (VDict dumped) (Some [None, bc])
          = (Inr (VDict (filter (\<lambda>(k, v). keeps self (Some [None, bc]) v) dumped)), self)"
    by (cases dumped) (simp_all add: filter_params_def)
  then show ?thesis
    using assms Inr by (simp add: request_def request_try_def echo_session_def)
qed

text \<open>
  C4. The wrapper reads the body from the dictionary that the serializer returned for
  the arguments, and hands that same dictionary on as the query parameters. So, with
  a transport that repeats what it was handed and no declared result type: whenever
  the query that reached the transport has no entry for the body parameter, the body
  that reached it is the serialization of \<^verbatim>\<open>None\<close> (the entry was missing) or of the
  client itself (the entry was dropped by the filter), whatever the argument was.
\<close>

theorem inner_body_not_from_argument:
  assumes "session self = echo_session"
    and "r_result_class r = None"
    and "fst (inner r self args kwargs)
           = Inr (VDict [(''method'', m), (''url'', u), (''params'', VDict query), (''json'', b)])"
    and "r_body_name r \<notin> fst ` set query"
  shows "serialize_body self VNone (r_body_class r) = Inr b
       \<or> serialize_body self (VRef (ident self)) (r_body_class r) = Inr b"
proof -
  let ?x = "VDict [(''method'', m), (''url'', u), (''params'', VDict query), (''json'', b)]"
  let ?bn = "r_body_name r"
  obtain params url dumped where
    i: "inner r self args kwargs =
          request self url (r_method r) (VDict dumped)
            (case map_of dumped ?bn of None \<Rightarrow> VNone | Some y \<Rightarrow> y)
            (r_body_class r) (r_result_class r)"
    using inner_reaches_request [OF assms(3)] by blast
  let ?body = "case map_of dumped ?bn of None \<Rightarrow> VNone | Some y \<Rightarrow> y"
  have "fst (request self url (r_method r) (VDict dumped) ?body (r_body_class r) None) = Inr ?x"
    using assms(2,3) i by simp
  then obtain b' where s: "serialize_body self ?body (r_body_class r) = Inr b'"
    and x: "?x = VDict [(''method'', VStr (r_method r)), (''url'', VStr (base_url self @ ''/'' @ url)),
                        (''params'', VDict (filter (\<lambda>(k, v). keeps self (Some [None, r_body_class r]) v) dumped)),
                        (''json'', b')]"
    using request_echo [OF assms(1)] by blast
  from x have q: "query = filter (\<lambda>(k, v). keeps self (Some [None, r_body_class r]) v) dumped"
    and b: "b' = b" by simp_all
  show ?thesis
  proof (cases "map_of dumped ?bn")
    case None
    then show ?thesis using s b by simp
  next
    case (Some v)
    then have "(?bn, v) \<in> set dumped" by (rule map_of_SomeD)
    moreover have "(?bn, v) \<notin> set query" using assms(4) by force
    ultimately have "\<not> keeps self (Some [None, r_body_class r]) v"
      unfolding q by simp
    then have "v = VRef (ident self)" by (simp add: keeps_def)
    then show ?thesis using s b Some by simp
  qed
qed

theorem inner_body_not_from_argument_witness:
  "fst (inner add_note_route demo_client [VStr ''hello''] [(''tag'', VStr ''x'')])
     = Inr (VDict [(''method'', VStr ''POST''), (''url'', VStr ''http://api.test/notes''),
                   (''params'', VDict [(''tag'', VStr ''x'')]), (''json'', VNone)])
   \<and> serialize_body demo_client VNone (r_body_class add_note_route) = Inr VNone"
proof -
  have e: "session demo_client = echo_session"
    by (simp add: demo_client_def BaseClient_init_def)
  have rc: "r_result_class add_note_route = None" by (simp add: add_note_route_def)
  have g: "getcallargs add_note [VRef 7, VStr ''hello''] [(''tag'', VStr ''x'')]
             = Inr [(''self'', VRef 7), (''body'', VStr ''hello''), (''tag'', VStr ''x'')]"
    by (simp add: getcallargs_def add_note_def List.map_filter_simps)
  have v: "fst (inner add_note_route demo_client [VStr ''hello''] [(''tag'', VStr ''x'')])
     = Inr (VDict [(''method'', VStr ''POST''), (''url'', VStr ''http://api.test/notes''),
                   (''params'', VDict [(''tag'', VStr ''x'')]), (''json'', VNone)])"
    by (simp add: inner_def add_note_route_def g demo_client_def BaseClient_init_def format_def
        shape_factory_def request_def request_try_def serialize_body_def filter_params_def
        keeps_def echo_session_def rstrip_def)
  have n: "r_body_name add_note_route \<notin> fst ` set [(''tag'', VStr ''x'')]"
    by (simp add: add_note_route_def)
  have "serialize_body demo_client VNone (r_body_class add_note_route) = Inr VNone
       \<or> serialize_body demo_client (VRef (ident demo_client)) (r_body_class add_note_route) = Inr VNone"
    by (rule inner_body_not_from_argument [OF e rc v n])
  then have "serialize_body demo_client VNone (r_body_class add_note_route) = Inr VNone"
    by (simp add: serialize_body_def add_note_route_def)
  with v show ?thesis by simp
qed

text \<open>
  The same on a method whose body parameter is annotated,
  \<^verbatim>\<open>add_item(self, body: Item, tag: str)\<close> declared with \<^verbatim>\<open>post("items")\<close>: with the
  serializer that keeps the declared keys the body read is \<^verbatim>\<open>None\<close> and its
  serialization fails before the transport is reached; with the serializer that
  returns every value as it is, the body parameter is among the query parameters.
\<close>

lemma add_item_route_declared: "post ''items'' ''body'' add_item = Inr add_item_route"
  by (simp add: post_def rest_def Let_def parse_def outside_fragment_def create_args_class_def
      add_item_def add_item_route_def)

lemma inner_add_item_evaluated:
  "fst (inner add_item_route demo_client [VObj ''Item'' [(''name'', VStr ''pen'')]] [(''tag'', VStr ''x'')])
     = Inl (SerializationError ''Item'')
   \<and> fst (inner add_item_route (demo_client\<lparr>factory := plain_factory\<rparr>)
             [VObj ''Item'' [(''name'', VStr ''pen'')]] [(''tag'', VStr ''x'')])
     = Inr (VDict [(''method'', VStr ''POST''), (''url'', VStr ''http://api.test/items''),
                   (''params'', VDict [(''body'', VObj ''Item'' [(''name'', VStr ''pen'')]),
                                       (''tag'', VStr ''x'')]),
                   (''json'', VObj ''Item'' [(''name'', VStr ''pen'')])])"
proof -
  have g: "getcallargs add_item [VRef 7, VObj ''Item'' [(''name'', VStr ''pen'')]] [(''tag'', VStr ''x'')]
             = Inr [(''self'', VRef 7), (''body'', VObj ''Item'' [(''name'', VStr ''pen'')]),
                    (''tag'', VStr ''x'')]"
    by (simp add: getcallargs_def add_item_def List.map_filter_simps)
  show ?thesis
    by (simp add: inner_def add_item_route_def g demo_client_def BaseClient_init_def format_def
        shape_factory_def plain_factory_def request_def request_try_def serialize_body_def
        filter_params_def keeps_def echo_session_def rstrip_def)
qed

end
